theory Spec2Isabelle
  imports Main
begin

section \<open>The parsed document: \<open>yaml.Node\<close>\<close>

text \<open>
  The validator reads four fields of a \<open>yaml.Node\<close> of \<open>gopkg.in/yaml.v3\<close>: \<open>Kind\<close>,
  \<open>Value\<close>, \<open>Content\<close> and \<open>Line\<close>.  \<open>Content\<close> holds the children: for a mapping
  the keys and values in turn, for a sequence the elements, for a document its root.
\<close>

datatype kind = DocumentNode | SequenceNode | MappingNode | ScalarNode | AliasNode

datatype node = Node (Kind: kind) (Value: string) (Content: "node list") (Line: int)

section \<open>Errors and the collector (\<open>errorhandler.go\<close>)\<close>

record ValidationError =
  FilePath_e :: string
  Line_e :: int
  Message :: string

record ErrorCollector =
  Errors :: "ValidationError list"

definition Add :: "ValidationError \<Rightarrow> ErrorCollector \<Rightarrow> ErrorCollector" where
  "Add err ec = ec\<lparr>Errors := Errors ec @ [err]\<rparr>"

definition HasErrors :: "ErrorCollector \<Rightarrow> bool" where
  "HasErrors ec \<longleftrightarrow> length (Errors ec) > 0"

record Validator =
  FilePath :: string
  RootNode :: node
  ErrorCollector :: ErrorCollector

text \<open>
  Every validator reports with
  \<open>v.ErrorCollector.Add(&ValidationError{FilePath: v.FilePath, Line: l, Message: m})\<close>.
\<close>

definition addError :: "int \<Rightarrow> string \<Rightarrow> Validator \<Rightarrow> Validator" where
  "addError l m v =
     v\<lparr>ErrorCollector :=
         Add \<lparr>FilePath_e = FilePath v, Line_e = l, Message = m\<rparr> (ErrorCollector v)\<rparr>"

text \<open>
  An index beyond the end of a slice stops a Go program with a run-time panic.  The
  validators index \<open>node.Content[i+1]\<close>, so a panic is a possible outcome of each
  of them that loops over pairs, and of all their callers.
\<close>

datatype panic = IndexOutOfRange

definition thenR :: "panic + 'a \<Rightarrow> ('a \<Rightarrow> panic + 'b) \<Rightarrow> panic + 'b" where
  "thenR r f = (case r of Inl p \<Rightarrow> Inl p | Inr x \<Rightarrow> f x)"

section \<open>The library functions the validators call\<close>

subsection \<open>\<open>regexp\<close>: compiled patterns and matching\<close>

text \<open>
  A compiled pattern is its syntax tree.  \<open>Class P\<close> is one byte satisfying \<open>P\<close>
  (a literal, a bracket class, \<open>\d\<close>, or \<open>.\<close>), \<open>Rep r\<close> is \<open>r*\<close>.  Matching goes by
  derivatives, byte by byte.  The patterns of \<open>constants.go\<close> only use ASCII
  literals and classes and \<open>.\<close>, for which matching by bytes and by UTF-8 runes agree.
\<close>

datatype regexp =
  Fail | Empty | Class "char \<Rightarrow> bool" | Cat regexp regexp | Or regexp regexp | Rep regexp

fun nullable :: "regexp \<Rightarrow> bool" where
  "nullable Fail = False"
| "nullable Empty = True"
| "nullable (Class P) = False"
| "nullable (Cat r s) = (nullable r \<and> nullable s)"
| "nullable (Or r s) = (nullable r \<or> nullable s)"
| "nullable (Rep r) = True"

fun deriv :: "char \<Rightarrow> regexp \<Rightarrow> regexp" where
  "deriv c Fail = Fail"
| "deriv c Empty = Fail"
| "deriv c (Class P) = (if P c then Empty else Fail)"
| "deriv c (Cat r s) =
     (if nullable r then Or (Cat (deriv c r) s) (deriv c s) else Cat (deriv c r) s)"
| "deriv c (Or r s) = Or (deriv c r) (deriv c s)"
| "deriv c (Rep r) = Cat (deriv c r) (Rep r)"

fun matches :: "regexp \<Rightarrow> string \<Rightarrow> bool" where
  "matches r [] = nullable r"
| "matches r (c # cs) = matches (deriv c r) cs"

definition lit :: "string \<Rightarrow> regexp" where
  "lit s = foldr (\<lambda>c r. Cat (Class (\<lambda>x. x = c)) r) s Empty"

definition rep1 :: "regexp \<Rightarrow> regexp" where
  "rep1 r = Cat r (Rep r)"

definition lower :: "char \<Rightarrow> bool" where
  "lower c \<longleftrightarrow> c \<in> set ''abcdefghijklmnopqrstuvwxyz''"

definition digit :: "char \<Rightarrow> bool" where
  "digit c \<longleftrightarrow> c \<in> set ''0123456789''"

text \<open>\<open>.\<close> matches any character but a line feed.\<close>

definition dot :: "char \<Rightarrow> bool" where
  "dot c \<longleftrightarrow> c \<noteq> CHR 0x0A"

subsection \<open>\<open>strconv.Atoi\<close>\<close>

text \<open>
  \<open>strconv.Atoi\<close> accepts an optional sign followed by one or more decimal digits, and
  fails (\<open>None\<close>) on anything else and on a value outside the range of \<open>int\<close>
  (64 bits).
\<close>

definition digitVal :: "char \<Rightarrow> int" where
  "digitVal c = int (of_char c) - 48"

definition decimal :: "string \<Rightarrow> int" where
  "decimal ds = foldl (\<lambda>a c. 10 * a + digitVal c) 0 ds"

definition Atoi :: "string \<Rightarrow> int option" where
  "Atoi s =
     (let neg = (s \<noteq> [] \<and> hd s = CHR ''-'');
          ds = (if s \<noteq> [] \<and> (hd s = CHR ''-'' \<or> hd s = CHR ''+'') then tl s else s);
          n = (if neg then - decimal ds else decimal ds)
      in if ds = [] \<or> \<not> list_all digit ds then None
         else if n < - (2 ^ 63) \<or> 2 ^ 63 \<le> n then None
         else Some n)"

text \<open>
  \<open>FindStringSubmatch\<close> for a pattern \<open>^(g1)(g2)$\<close> of two groups: the whole match and
  the text of each group, or \<open>nil\<close> (\<open>None\<close>).  The first group is greedy, so
  the longest first part that lets the rest match is taken.
\<close>

definition FindStringSubmatch2 :: "regexp \<Rightarrow> regexp \<Rightarrow> string \<Rightarrow> string list option" where
  "FindStringSubmatch2 g1 g2 s =
     (case filter (\<lambda>n. matches g1 (take n s) \<and> matches g2 (drop n s))
             (rev [0 ..< Suc (length s)]) of
        [] \<Rightarrow> None
      | n # _ \<Rightarrow> Some [s, take n s, drop n s])"

section \<open>The rule set (\<open>constants.go\<close>)\<close>

definition APIVersionExpected :: string where
  "APIVersionExpected = ''v1''"

definition KindExpected :: string where
  "KindExpected = ''Pod''"

text \<open>\<^verbatim>\<open>^[a-z]+(_[a-z]+)*$\<close>\<close>

definition RegexSnakeCase :: regexp where
  "RegexSnakeCase = Cat (rep1 (Class lower)) (Rep (Cat (lit ''_'') (rep1 (Class lower))))"

text \<open>\<^verbatim>\<open>^registry\.bigbrother\.io/(.+):(.+)$\<close>\<close>

definition RegexImage :: regexp where
  "RegexImage =
     Cat (lit ''registry.bigbrother.io/'')
       (Cat (rep1 (Class dot)) (Cat (lit '':'') (rep1 (Class dot))))"

text \<open>\<^verbatim>\<open>^(\d+)(Mi|Gi|Ki)$\<close>, as its two groups.\<close>

definition RegexMemory_amount :: regexp where
  "RegexMemory_amount = rep1 (Class digit)"

definition RegexMemory_unit :: regexp where
  "RegexMemory_unit = Or (lit ''Mi'') (Or (lit ''Gi'') (lit ''Ki''))"

text \<open>
  \<^verbatim>\<open>^/.*\<close> has no \<open>$\<close>: a match may end before the end of the text, so anything may
  follow it.
\<close>

definition RegexAbsolutePath :: regexp where
  "RegexAbsolutePath = Cat (lit ''/'') (Cat (Rep (Class dot)) (Rep (Class (\<lambda>c. True))))"

definition SupportedOSNames :: "string list" where
  "SupportedOSNames = [''linux'', ''windows'']"

definition SupportedProtocols :: "string list" where
  "SupportedProtocols = [''TCP'', ''UDP'']"

definition PortNumberMin :: int where
  "PortNumberMin = 1"

definition PortNumberMax :: int where
  "PortNumberMax = 65535"

text \<open>
  Modelled from the spec: \<open>ContainsString\<close> is called by \<open>validateOS\<close> and
  \<open>validateProtocol\<close> and its body is not among the sources.  The spec has the value
  ``be one of a fixed supported set'', which is membership in the list.
\<close>

definition ContainsString :: "string \<Rightarrow> string list \<Rightarrow> bool" where
  "ContainsString s xs \<longleftrightarrow> s \<in> set xs"

section \<open>The validator\<close>

text \<open>\<open>fmt.Sprintf("'%s'", s)\<close>\<close>

definition quoted :: "string \<Rightarrow> string" where
  "quoted s = CHR 0x27 # s @ [CHR 0x27]"

subsection \<open>The loops\<close>

text \<open>\<open>for _, x := range xs { f(x) }\<close>\<close>

fun forEach :: "(node \<Rightarrow> Validator \<Rightarrow> panic + Validator) \<Rightarrow> node list \<Rightarrow> Validator
    \<Rightarrow> panic + Validator" where
  "forEach f [] v = Inr v"
| "forEach f (x # xs) v = thenR (f x v) (forEach f xs)"

text \<open>
  \<open>for i := 0; i < len(c); i += 2 { k, x := c[i], c[i+1]; body }\<close>: with one child
  left, \<open>c[i+1]\<close> is out of range.
\<close>

fun forPairs :: "(node \<Rightarrow> node \<Rightarrow> Validator \<Rightarrow> panic + Validator) \<Rightarrow> node list \<Rightarrow> Validator
    \<Rightarrow> panic + Validator" where
  "forPairs f [] v = Inr v"
| "forPairs f [k] v = Inl IndexOutOfRange"
| "forPairs f (k # x # rest) v = thenR (f k x v) (forPairs f rest)"

text \<open>
  The same loop with the bookkeeping that seven validators share:
  \<open>key := keyNode.Value; visitedFields[key] = true; switch key { ... }\<close>.
  \<open>visitedFields\<close> is a \<open>map[string]bool\<close>, read with \<open>false\<close> for an absent key.
\<close>

fun forFields :: "(string \<Rightarrow> node \<Rightarrow> Validator \<Rightarrow> panic + Validator) \<Rightarrow> node list
    \<Rightarrow> (string \<Rightarrow> bool) \<Rightarrow> Validator \<Rightarrow> panic + (string \<Rightarrow> bool) \<times> Validator" where
  "forFields sw [] visitedFields v = Inr (visitedFields, v)"
| "forFields sw [k] visitedFields v = Inl IndexOutOfRange"
| "forFields sw (k # x # rest) visitedFields v =
     thenR (sw (Value k) x v) (forFields sw rest (visitedFields(Value k := True)))"

text \<open>
  \<open>for _, field := range requiredFields { if !visitedFields[field] { Add(...) } }\<close>,
  the error on the line \<open>l\<close> of the node that lacks the field.
\<close>

fun requireFields :: "string list \<Rightarrow> (string \<Rightarrow> bool) \<Rightarrow> int \<Rightarrow> Validator \<Rightarrow> Validator" where
  "requireFields [] visitedFields l v = v"
| "requireFields (field # rest) visitedFields l v =
     requireFields rest visitedFields l
       (if \<not> visitedFields field then addError l (field @ '' is required'') v else v)"

subsection \<open>Scalars\<close>

definition validateAPIVersion :: "node \<Rightarrow> Validator \<Rightarrow> Validator" where
  "validateAPIVersion n v =
     (if Kind n \<noteq> ScalarNode \<or> Value n \<noteq> APIVersionExpected
      then addError (Line n) (''apiVersion has unsupported value '' @ quoted (Value n)) v
      else v)"

definition validateKind :: "node \<Rightarrow> Validator \<Rightarrow> Validator" where
  "validateKind n v =
     (if Kind n \<noteq> ScalarNode \<or> Value n \<noteq> KindExpected
      then addError (Line n) (''kind has unsupported value '' @ quoted (Value n)) v
      else v)"

definition validateOS :: "node \<Rightarrow> Validator \<Rightarrow> Validator" where
  "validateOS n v =
     (if Kind n \<noteq> ScalarNode then addError (Line n) ''os must be string'' v
      else if \<not> ContainsString (Value n) SupportedOSNames
      then addError (Line n) (''os has unsupported value '' @ quoted (Value n)) v
      else v)"

definition validateName :: "node \<Rightarrow> bool \<Rightarrow> Validator \<Rightarrow> Validator" where
  "validateName n checkSnakeCase v =
     (if Kind n \<noteq> ScalarNode then addError (Line n) ''name must be string'' v
      else if Value n = [] then addError (Line n) ''name is required'' v
      else if checkSnakeCase \<and> \<not> matches RegexSnakeCase (Value n)
      then addError (Line n) (''name has invalid format '' @ quoted (Value n)) v
      else v)"

definition validateImage :: "node \<Rightarrow> Validator \<Rightarrow> Validator" where
  "validateImage n v =
     (if Kind n \<noteq> ScalarNode then addError (Line n) ''image must be string'' v
      else if \<not> matches RegexImage (Value n)
      then addError (Line n) (''image has invalid format '' @ quoted (Value n)) v
      else v)"

definition validatePortNumber :: "node \<Rightarrow> string \<Rightarrow> Validator \<Rightarrow> Validator" where
  "validatePortNumber n fieldName v =
     (if Kind n \<noteq> ScalarNode then addError (Line n) (fieldName @ '' must be int'') v
      else case Atoi (Value n) of
        None \<Rightarrow> addError (Line n) (fieldName @ '' must be int'') v
      | Some port \<Rightarrow>
          if port < PortNumberMin \<or> port > PortNumberMax
          then addError (Line n) (fieldName @ '' value out of range'') v
          else v)"

definition validateProtocol :: "node \<Rightarrow> Validator \<Rightarrow> Validator" where
  "validateProtocol n v =
     (if Kind n \<noteq> ScalarNode then addError (Line n) ''protocol must be string'' v
      else if \<not> ContainsString (Value n) SupportedProtocols
      then addError (Line n) (''protocol has unsupported value '' @ quoted (Value n)) v
      else v)"

definition validateHTTPPath :: "node \<Rightarrow> Validator \<Rightarrow> Validator" where
  "validateHTTPPath n v =
     (if Kind n \<noteq> ScalarNode then addError (Line n) ''path must be string'' v
      else if \<not> matches RegexAbsolutePath (Value n)
      then addError (Line n) (''path has invalid format '' @ quoted (Value n)) v
      else v)"

definition validateCPU :: "node \<Rightarrow> Validator \<Rightarrow> Validator" where
  "validateCPU n v =
     (if Kind n \<noteq> ScalarNode then addError (Line n) ''cpu must be int'' v
      else case Atoi (Value n) of
        None \<Rightarrow> addError (Line n) ''cpu value out of range'' v
      | Some cpu \<Rightarrow> if cpu < 1 then addError (Line n) ''cpu value out of range'' v else v)"

definition validateMemory :: "node \<Rightarrow> Validator \<Rightarrow> Validator" where
  "validateMemory n v =
     (if Kind n \<noteq> ScalarNode then addError (Line n) ''memory must be string'' v
      else case FindStringSubmatch2 RegexMemory_amount RegexMemory_unit (Value n) of
        None \<Rightarrow> addError (Line n) (''memory has invalid format '' @ quoted (Value n)) v
      | Some ms \<Rightarrow>
          (case Atoi (ms ! 1) of
             None \<Rightarrow> addError (Line n) ''memory value out of range'' v
           | Some amount \<Rightarrow>
               if amount < 1 then addError (Line n) ''memory value out of range'' v else v))"

subsection \<open>Mappings and sequences\<close>

definition validateLabels :: "node \<Rightarrow> Validator \<Rightarrow> panic + Validator" where
  "validateLabels n v =
     (if Kind n \<noteq> MappingNode then Inr (addError (Line n) ''labels must be a mapping'' v)
      else forPairs
        (\<lambda>k x v. Inr (if Kind x \<noteq> ScalarNode
                       then addError (Line x) ''label value must be string'' v else v))
        (Content n) v)"

definition validateResourceRequirements :: "node \<Rightarrow> Validator \<Rightarrow> panic + Validator" where
  "validateResourceRequirements n v =
     forPairs
       (\<lambda>k x v. if Value k = ''cpu'' then Inr (validateCPU x v)
                 else if Value k = ''memory'' then Inr (validateMemory x v)
                 else Inr v)
       (Content n) v"

definition validateResources :: "node \<Rightarrow> Validator \<Rightarrow> panic + Validator" where
  "validateResources n v = forPairs (\<lambda>k x v. validateResourceRequirements x v) (Content n) v"

definition validateHTTPGet_switch :: "string \<Rightarrow> node \<Rightarrow> Validator \<Rightarrow> panic + Validator" where
  "validateHTTPGet_switch key x v =
     (if key = ''path'' then Inr (validateHTTPPath x v)
      else if key = ''port'' then Inr (validatePortNumber x ''port'' v)
      else Inr v)"

definition validateHTTPGet :: "node \<Rightarrow> Validator \<Rightarrow> panic + Validator" where
  "validateHTTPGet n v =
     thenR (forFields validateHTTPGet_switch (Content n) (\<lambda>field. False) v)
       (\<lambda>(visitedFields, v').
          Inr (requireFields [''path'', ''port''] visitedFields (Line n) v'))"

definition validateProbe_switch :: "string \<Rightarrow> node \<Rightarrow> Validator \<Rightarrow> panic + Validator" where
  "validateProbe_switch key x v = (if key = ''httpGet'' then validateHTTPGet x v else Inr v)"

definition validateProbe :: "node \<Rightarrow> Validator \<Rightarrow> panic + Validator" where
  "validateProbe n v =
     thenR (forFields validateProbe_switch (Content n) (\<lambda>field. False) v)
       (\<lambda>(visitedFields, v').
          Inr (requireFields [''httpGet''] visitedFields (Line n) v'))"

definition validatePort_switch :: "string \<Rightarrow> node \<Rightarrow> Validator \<Rightarrow> panic + Validator" where
  "validatePort_switch key x v =
     (if key = ''containerPort'' then Inr (validatePortNumber x ''containerPort'' v)
      else if key = ''protocol'' then Inr (validateProtocol x v)
      else Inr v)"

definition validatePort :: "node \<Rightarrow> Validator \<Rightarrow> panic + Validator" where
  "validatePort n v =
     thenR (forFields validatePort_switch (Content n) (\<lambda>field. False) v)
       (\<lambda>(visitedFields, v').
          Inr (requireFields [''containerPort''] visitedFields (Line n) v'))"

definition validatePorts :: "node \<Rightarrow> Validator \<Rightarrow> panic + Validator" where
  "validatePorts n v =
     (if Kind n \<noteq> SequenceNode then Inr (addError (Line n) ''ports must be an array'' v)
      else forEach validatePort (Content n) v)"

definition validateContainer_switch :: "string \<Rightarrow> node \<Rightarrow> Validator \<Rightarrow> panic + Validator" where
  "validateContainer_switch key x v =
     (if key = ''name'' then Inr (validateName x True v)
      else if key = ''image'' then Inr (validateImage x v)
      else if key = ''ports'' then validatePorts x v
      else if key = ''readinessProbe'' then validateProbe x v
      else if key = ''livenessProbe'' then validateProbe x v
      else if key = ''resources'' then validateResources x v
      else Inr v)"

definition validateContainer :: "node \<Rightarrow> Validator \<Rightarrow> panic + Validator" where
  "validateContainer n v =
     thenR (forFields validateContainer_switch (Content n) (\<lambda>field. False) v)
       (\<lambda>(visitedFields, v').
          Inr (requireFields [''name'', ''image'', ''resources''] visitedFields (Line n) v'))"

definition validateContainers :: "node \<Rightarrow> Validator \<Rightarrow> panic + Validator" where
  "validateContainers n v =
     (if Kind n \<noteq> SequenceNode
      then Inr (addError (Line n) ''containers must be an array'' v)
      else forEach validateContainer (Content n) v)"

definition validateSpec_switch :: "string \<Rightarrow> node \<Rightarrow> Validator \<Rightarrow> panic + Validator" where
  "validateSpec_switch key x v =
     (if key = ''os'' then Inr (validateOS x v)
      else if key = ''containers'' then validateContainers x v
      else Inr v)"

definition validateSpec :: "node \<Rightarrow> Validator \<Rightarrow> panic + Validator" where
  "validateSpec n v =
     thenR (forFields validateSpec_switch (Content n) (\<lambda>field. False) v)
       (\<lambda>(visitedFields, v').
          Inr (requireFields [''containers''] visitedFields (Line n) v'))"

definition validateMetadata_switch :: "string \<Rightarrow> node \<Rightarrow> Validator \<Rightarrow> panic + Validator" where
  "validateMetadata_switch key x v =
     (if key = ''name'' then Inr (validateName x False v)
      else if key = ''labels'' then validateLabels x v
      else Inr v)"

definition validateMetadata :: "node \<Rightarrow> Validator \<Rightarrow> panic + Validator" where
  "validateMetadata n v =
     thenR (forFields validateMetadata_switch (Content n) (\<lambda>field. False) v)
       (\<lambda>(visitedFields, v').
          Inr (requireFields [''name''] visitedFields (Line n) v'))"

definition validatePod_switch :: "string \<Rightarrow> node \<Rightarrow> Validator \<Rightarrow> panic + Validator" where
  "validatePod_switch key x v =
     (if key = ''apiVersion'' then Inr (validateAPIVersion x v)
      else if key = ''kind'' then Inr (validateKind x v)
      else if key = ''metadata'' then validateMetadata x v
      else if key = ''spec'' then validateSpec x v
      else Inr v)"

definition validatePod :: "node \<Rightarrow> Validator \<Rightarrow> panic + Validator" where
  "validatePod n v =
     thenR (forFields validatePod_switch (Content n) (\<lambda>field. False) v)
       (\<lambda>(visitedFields, v').
          Inr (requireFields [''apiVersion'', ''kind'', ''metadata'', ''spec''] visitedFields (Line n) v'))"

text \<open>
  \<open>Validate\<close> returns \<open>v.ErrorCollector.Errors\<close>; the validator it was called on keeps
  the collector it has filled.
\<close>

definition Validate :: "Validator \<Rightarrow> panic + ValidationError list \<times> Validator" where
  "Validate v =
     thenR (forEach validatePod (Content (RootNode v)) v)
       (\<lambda>v'. Inr (Errors (ErrorCollector v'), v'))"

text \<open>\<open>NewValidator\<close>, after the file has been read and parsed to \<open>root\<close>.\<close>

definition NewValidator :: "string \<Rightarrow> node \<Rightarrow> Validator" where
  "NewValidator relPath root =
     \<lparr>FilePath = relPath, RootNode = root, ErrorCollector = \<lparr>Errors = []\<rparr>\<rparr>"

section \<open>Documents\<close>

text \<open>Nodes as the parser builds them: a scalar has no children, a collection no value.\<close>

definition scalar :: "string \<Rightarrow> int \<Rightarrow> node" where
  "scalar s l = Node ScalarNode s [] l"

definition mapping :: "node list \<Rightarrow> int \<Rightarrow> node" where
  "mapping c l = Node MappingNode [] c l"

definition sequence :: "node list \<Rightarrow> int \<Rightarrow> node" where
  "sequence c l = Node SequenceNode [] c l"

text \<open>The keys of a mapping's children, and the children without the pairs of one key.\<close>

fun keysOf :: "node list \<Rightarrow> string set" where
  "keysOf [] = {}"
| "keysOf [k] = {}"
| "keysOf (k # x # rest) = insert (Value k) (keysOf rest)"

fun removeKey :: "string \<Rightarrow> node list \<Rightarrow> node list" where
  "removeKey f [] = []"
| "removeKey f [k] = [k]"
| "removeKey f (k # x # rest) =
     (if Value k = f then removeKey f rest else k # x # removeKey f rest)"

text \<open>
  The document of scenario A, with the container left open: \<open>L i\<close> is the line of
  the \<open>i\<close>-th node, so that the statements hold for every layout of the file.
\<close>

definition resourcesA :: "(nat \<Rightarrow> int) \<Rightarrow> node" where
  "resourcesA L =
     mapping [scalar ''limits'' (L 21),
       mapping [scalar ''cpu'' (L 23), scalar ''1'' (L 24),
                scalar ''memory'' (L 25), scalar ''256Mi'' (L 26)] (L 22)] (L 20)"

definition containerOf :: "string \<Rightarrow> string \<Rightarrow> node \<Rightarrow> (nat \<Rightarrow> int) \<Rightarrow> node" where
  "containerOf name img res L =
     mapping [scalar ''name'' (L 15), scalar name (L 16),
              scalar ''image'' (L 17), scalar img (L 18),
              scalar ''resources'' (L 19), res] (L 14)"

definition podPairs :: "node \<Rightarrow> (nat \<Rightarrow> int) \<Rightarrow> node list" where
  "podPairs c L =
     [scalar ''apiVersion'' (L 2), scalar ''v1'' (L 3),
      scalar ''kind'' (L 4), scalar ''Pod'' (L 5),
      scalar ''metadata'' (L 6),
      mapping [scalar ''name'' (L 8), scalar ''web'' (L 9)] (L 7),
      scalar ''spec'' (L 10),
      mapping [scalar ''containers'' (L 12), sequence [c] (L 13)] (L 11)]"

definition podOf :: "node \<Rightarrow> (nat \<Rightarrow> int) \<Rightarrow> node" where
  "podOf c L = Node DocumentNode [] [mapping (podPairs c L) (L 1)] (L 0)"

definition containerA :: "(nat \<Rightarrow> int) \<Rightarrow> node" where
  "containerA L = containerOf ''web_app'' ''registry.bigbrother.io/app:1.0'' (resourcesA L) L"

definition scenarioA :: "(nat \<Rightarrow> int) \<Rightarrow> node" where
  "scenarioA L = podOf (containerA L) L"

definition scenarioB :: "(nat \<Rightarrow> int) \<Rightarrow> node" where
  "scenarioB L = podOf (containerOf ''WebApp'' ''docker.io/app:1.0'' (resourcesA L) L) L"

text \<open>
  The lines of the nodes when the document is written in block style, one key per line:
  the container starts on line 7 with its name, its image is on line 8.
\<close>

definition blockLines :: "nat \<Rightarrow> int" where
  "blockLines i =
     [1, 1, 1, 1, 2, 2, 3, 4, 4, 4, 5, 6, 6, 7, 7, 7, 7, 8, 8, 9, 10, 10, 11, 11, 11, 12, 12] ! i"

text \<open>
  The resources of scenario A with one more pair, \<open>extra: {cpu: 0}\<close>, and the
  container of scenario A with these resources.
\<close>

definition resourcesExtra :: node where
  "resourcesExtra =
     mapping (Content (resourcesA blockLines) @
       [scalar ''extra'' 13, mapping [scalar ''cpu'' 14, scalar ''0'' 14] 14]) 10"

definition containerExtra :: node where
  "containerExtra =
     containerOf ''web_app'' ''registry.bigbrother.io/app:1.0'' resourcesExtra blockLines"

text \<open>Scenario A in block style without its \<open>spec\<close>.\<close>

definition podNoSpec :: node where
  "podNoSpec =
     Node DocumentNode []
       [mapping (removeKey ''spec'' (podPairs (containerA blockLines) blockLines)) 1] 1"

text \<open>The claim's condition on a tree: every mapping has an even number of children.\<close>

fun evenMappings :: "node \<Rightarrow> bool" where
  "evenMappings (Node kd val c l) =
     ((if kd = MappingNode then even (length c) else True) \<and> list_all evenMappings c)"

section \<open>What a validator adds to the collector\<close>

text \<open>
  \<open>emit es v\<close> is \<open>v\<close> after the errors \<open>es\<close> have been added in order.  A validator
  is \<open>appending P\<close> when, for a given file path, it either panics or adds one fixed
  list of errors, all satisfying \<open>P\<close>, whatever the collector held before.
\<close>

definition emit :: "ValidationError list \<Rightarrow> Validator \<Rightarrow> Validator" where
  "emit es v = v\<lparr>ErrorCollector := \<lparr>Errors = Errors (ErrorCollector v) @ es\<rparr>\<rparr>"

text \<open>
  The shape that the validators of a pod, a metadata, a spec, a container, a port, a probe
  and an httpGet share: the loop over the pairs with a switch on the key, then the check
  of the required fields.
\<close>

definition object :: "(string \<Rightarrow> node \<Rightarrow> Validator \<Rightarrow> panic + Validator) \<Rightarrow> string list \<Rightarrow> node
    \<Rightarrow> Validator \<Rightarrow> panic + Validator" where
  "object sw requiredFields n v =
     thenR (forFields sw (Content n) (\<lambda>field. False) v)
       (\<lambda>(visitedFields, v'). Inr (requireFields requiredFields visitedFields (Line n) v'))"

text \<open>The units of the memory pattern.\<close>

definition units :: "string set" where
  "units = {''Mi'', ''Gi'', ''Ki''}"

text \<open>The errors that \<open>w\<close> holds beyond those of \<open>v\<close>.\<close>

definition added :: "Validator \<Rightarrow> Validator \<Rightarrow> ValidationError list" where
  "added v w = drop (length (Errors (ErrorCollector v))) (Errors (ErrorCollector w))"

definition appending :: "(ValidationError \<Rightarrow> bool) \<Rightarrow> (Validator \<Rightarrow> panic + Validator) \<Rightarrow> bool" where
  "appending P f \<longleftrightarrow>
     (\<forall>fp. \<exists>r. (\<forall>v. FilePath v = fp \<longrightarrow> f v = map_sum id (\<lambda>es. emit es v) r) \<and>
               (\<forall>es. r = Inr es \<longrightarrow> list_all P es))"

definition avoids :: "string set \<Rightarrow> ValidationError \<Rightarrow> bool" where
  "avoids S e \<longleftrightarrow> Message e \<notin> S"

definition requiredMsgs :: "string set" where
  "requiredMsgs = {''containers is required'', ''resources is required''}"

section \<open>Lemmas about the collector and the loops\<close>


lemma emit_Nil [simp]: "emit [] v = v"
  by (simp add: emit_def)

lemma emit_emit [simp]: "emit es (emit es' v) = emit (es' @ es) v"
  by (simp add: emit_def)

lemma FilePath_emit [simp]: "FilePath (emit es v) = FilePath v"
  by (simp add: emit_def)

lemma RootNode_emit [simp]: "RootNode (emit es v) = RootNode v"
  by (simp add: emit_def)

lemma Errors_emit [simp]: "Errors (ErrorCollector (emit es v)) = Errors (ErrorCollector v) @ es"
  by (simp add: emit_def)

lemma emit_eq_iff [simp]: "emit es v = emit es' v \<longleftrightarrow> es = es'"
proof
  assume "emit es v = emit es' v"
  then have "Errors (ErrorCollector (emit es v)) = Errors (ErrorCollector (emit es' v))"
    by simp
  then show "es = es'" by simp
qed simp

lemma emit_self [simp]: "emit es v = v \<longleftrightarrow> es = []"
  using emit_eq_iff [of es v "[]"] by simp

lemma emit_self' [simp]: "v = emit es v \<longleftrightarrow> es = []"
  using emit_self [of es v] by (auto simp del: emit_self)

lemma addError_emit:
  "addError l m v = emit [\<lparr>FilePath_e = FilePath v, Line_e = l, Message = m\<rparr>] v"
  by (simp add: addError_def emit_def Add_def)

lemma thenR_simps [simp]:
  "thenR (Inl p) f = Inl p"
  "thenR (Inr x) f = f x"
  by (simp_all add: thenR_def)

lemma thenR_Inr_iff: "thenR r f = Inr y \<longleftrightarrow> (\<exists>x. r = Inr x \<and> f x = Inr y)"
  by (cases r) simp_all

lemma thenR_assoc: "thenR (thenR r f) g = thenR r (\<lambda>x. thenR (f x) g)"
  by (cases r) simp_all

lemma thenR_Inr [simp]: "thenR r Inr = r"
  by (cases r) simp_all

lemma appendingI:
  assumes "\<And>fp. \<exists>r. (\<forall>v. FilePath v = fp \<longrightarrow> f v = map_sum id (\<lambda>es. emit es v) r) \<and>
               (\<forall>es. r = Inr es \<longrightarrow> list_all P es)"
  shows "appending P f"
  using assms by (simp add: appending_def)

lemma appendingD:
  assumes "appending P f"
  shows "\<exists>r. (\<forall>v. FilePath v = fp \<longrightarrow> f v = map_sum id (\<lambda>es. emit es v) r) \<and>
               (\<forall>es. r = Inr es \<longrightarrow> list_all P es)"
  using assms unfolding appending_def by blast

lemma appending_skip: "appending P (\<lambda>v. Inr v)"
  by (rule appendingI, rule exI [of _ "Inr []"]) simp

lemma appending_panic: "appending P (\<lambda>v. Inl p)"
  by (rule appendingI, rule exI [of _ "Inl p"]) simp

lemma appending_addError:
  assumes "\<And>fp. P \<lparr>FilePath_e = fp, Line_e = l, Message = m\<rparr>"
  shows "appending P (\<lambda>v. Inr (addError l m v))"
proof (rule appendingI)
  fix fp
  show "\<exists>r. (\<forall>v. FilePath v = fp \<longrightarrow> Inr (addError l m v) = map_sum id (\<lambda>es. emit es v) r) \<and>
               (\<forall>es. r = Inr es \<longrightarrow> list_all P es)"
    by (rule exI [of _ "Inr [\<lparr>FilePath_e = fp, Line_e = l, Message = m\<rparr>]"])
      (simp add: addError_emit assms)
qed

lemma appending_if:
  assumes "c \<Longrightarrow> appending P f" and "\<not> c \<Longrightarrow> appending P g"
  shows "appending P (\<lambda>v. if c then f v else g v)"
  using assms by (cases c) simp_all

lemma appending_case_option:
  assumes "x = None \<Longrightarrow> appending P f" and "\<And>y. x = Some y \<Longrightarrow> appending P (g y)"
  shows "appending P (\<lambda>v. case x of None \<Rightarrow> f v | Some y \<Rightarrow> g y v)"
  using assms by (cases x) simp_all

lemma appending_thenR:
  assumes f: "appending P f" and g: "appending P g"
  shows "appending P (\<lambda>v. thenR (f v) g)"
proof (rule appendingI)
  fix fp
  from f obtain r where r: "\<And>v. FilePath v = fp \<Longrightarrow> f v = map_sum id (\<lambda>es. emit es v) r"
    and rP: "\<And>es. r = Inr es \<Longrightarrow> list_all P es"
    using appendingD [of P f fp] by blast
  from g obtain s where s: "\<And>v. FilePath v = fp \<Longrightarrow> g v = map_sum id (\<lambda>es. emit es v) s"
    and sP: "\<And>es. s = Inr es \<Longrightarrow> list_all P es"
    using appendingD [of P g fp] by blast
  show "\<exists>t. (\<forall>v. FilePath v = fp \<longrightarrow> thenR (f v) g = map_sum id (\<lambda>es. emit es v) t) \<and>
               (\<forall>es. t = Inr es \<longrightarrow> list_all P es)"
  proof (cases r)
    case (Inl p)
    then show ?thesis
      using r by (intro exI [of _ "Inl p"]) simp
  next
    case (Inr es)
    note r_es = this
    show ?thesis
    proof (cases s)
      case (Inl p)
      then show ?thesis
        using r s r_es by (intro exI [of _ "Inl p"]) simp
    next
      case (Inr es')
      then show ?thesis
        using r s r_es rP sP by (intro exI [of _ "Inr (es @ es')"]) simp
    qed
  qed
qed

lemma appending_mono:
  assumes "appending P f" and "\<And>e. P e \<Longrightarrow> Q e"
  shows "appending Q f"
proof (rule appendingI)
  fix fp
  from assms(1) obtain r where r: "\<And>v. FilePath v = fp \<Longrightarrow> f v = map_sum id (\<lambda>es. emit es v) r"
    and rP: "\<And>es. r = Inr es \<Longrightarrow> list_all P es"
    using appendingD [of P f fp] by blast
  have "\<And>es. r = Inr es \<Longrightarrow> list_all Q es"
    using rP assms(2) by (auto simp: list_all_iff)
  with r show "\<exists>r. (\<forall>v. FilePath v = fp \<longrightarrow> f v = map_sum id (\<lambda>es. emit es v) r) \<and>
               (\<forall>es. r = Inr es \<longrightarrow> list_all Q es)"
    by blast
qed

lemma appending_Inr:
  assumes "appending P f" and "f v = Inr w"
  shows "\<exists>es. w = emit es v \<and> list_all P es \<and>
    (\<forall>v'. FilePath v' = FilePath v \<longrightarrow> f v' = Inr (emit es v'))"
proof -
  from assms(1) obtain r
    where r: "\<And>v'. FilePath v' = FilePath v \<Longrightarrow> f v' = map_sum id (\<lambda>es. emit es v') r"
    and rP: "\<And>es. r = Inr es \<Longrightarrow> list_all P es"
    using appendingD [of P f "FilePath v"] by blast
  from r [of v] assms(2) obtain es where res: "r = Inr es"
    by (cases r) simp_all
  have "w = emit es v"
    using r [of v] assms(2) res by simp
  moreover have "list_all P es"
    using rP res .
  moreover have "\<forall>v'. FilePath v' = FilePath v \<longrightarrow> f v' = Inr (emit es v')"
    using r res by simp
  ultimately show ?thesis
    by blast
qed

lemma appending_forEach:
  assumes "\<And>x. appending P (f x)"
  shows "appending P (forEach f xs)"
proof (induction xs)
  case Nil
  have "forEach f [] = (\<lambda>v. Inr v)" by (rule ext) simp
  then show ?case by (simp add: appending_skip)
next
  case (Cons x xs)
  have "forEach f (x # xs) = (\<lambda>v. thenR (f x v) (forEach f xs))" by (rule ext) simp
  then show ?case using assms Cons by (simp add: appending_thenR)
qed

lemma appending_forPairs:
  assumes "\<And>k x. appending P (f k x)"
  shows "appending P (forPairs f ps)"
proof (induction ps rule: induct_list012)
  case 1
  have "forPairs f [] = (\<lambda>v. Inr v)" by (rule ext) simp
  then show ?case by (simp add: appending_skip)
next
  case (2 k)
  have "forPairs f [k] = (\<lambda>v. Inl IndexOutOfRange)" by (rule ext) simp
  then show ?case by (simp add: appending_panic)
next
  case (3 k x rest)
  have "forPairs f (k # x # rest) = (\<lambda>v. thenR (f k x v) (forPairs f rest))" by (rule ext) simp
  then show ?case using assms 3 by (simp add: appending_thenR)
qed

lemma avoidsI: "S \<subseteq> requiredMsgs \<Longrightarrow> m \<noteq> ''containers is required'' \<Longrightarrow> m \<noteq> ''resources is required''
  \<Longrightarrow> avoids S \<lparr>FilePath_e = fp, Line_e = l, Message = m\<rparr>"
  by (auto simp: avoids_def requiredMsgs_def)

lemmas leaf_rules = appending_if appending_case_option appending_addError appending_skip avoidsI

lemma appending_validateName:
  "S \<subseteq> requiredMsgs \<Longrightarrow> appending (avoids S) (\<lambda>v. Inr (validateName n b v))"
  unfolding validateName_def if_distrib [of Inr]
  by (intro leaf_rules; simp)

lemma appending_validateAPIVersion:
  "S \<subseteq> requiredMsgs \<Longrightarrow> appending (avoids S) (\<lambda>v. Inr (validateAPIVersion n v))"
  unfolding validateAPIVersion_def if_distrib [of Inr]
  by (intro leaf_rules; simp)

lemma appending_validatePortNumber:
  "S \<subseteq> requiredMsgs \<Longrightarrow> fieldName = ''port'' \<or> fieldName = ''containerPort'' \<Longrightarrow> appending (avoids S) (\<lambda>v. Inr (validatePortNumber n fieldName v))"
  unfolding validatePortNumber_def if_distrib [of Inr] option.case_distrib [of Inr]
  by (intro leaf_rules; auto)

lemma appending_validateMemory:
  "S \<subseteq> requiredMsgs \<Longrightarrow> appending (avoids S) (\<lambda>v. Inr (validateMemory n v))"
  unfolding validateMemory_def if_distrib [of Inr] option.case_distrib [of Inr]
  by (intro leaf_rules; simp)


lemma appending_validateKind:
  "S \<subseteq> requiredMsgs \<Longrightarrow> appending (avoids S) (\<lambda>v. Inr (validateKind n v))"
  unfolding validateKind_def if_distrib [of Inr]
  by (intro leaf_rules; simp)

lemma appending_validateOS:
  "S \<subseteq> requiredMsgs \<Longrightarrow> appending (avoids S) (\<lambda>v. Inr (validateOS n v))"
  unfolding validateOS_def if_distrib [of Inr]
  by (intro leaf_rules; simp)

lemma appending_validateImage:
  "S \<subseteq> requiredMsgs \<Longrightarrow> appending (avoids S) (\<lambda>v. Inr (validateImage n v))"
  unfolding validateImage_def if_distrib [of Inr]
  by (intro leaf_rules; simp)

lemma appending_validateProtocol:
  "S \<subseteq> requiredMsgs \<Longrightarrow> appending (avoids S) (\<lambda>v. Inr (validateProtocol n v))"
  unfolding validateProtocol_def if_distrib [of Inr]
  by (intro leaf_rules; simp)

lemma appending_validateHTTPPath:
  "S \<subseteq> requiredMsgs \<Longrightarrow> appending (avoids S) (\<lambda>v. Inr (validateHTTPPath n v))"
  unfolding validateHTTPPath_def if_distrib [of Inr]
  by (intro leaf_rules; simp)

lemma appending_validateCPU:
  "S \<subseteq> requiredMsgs \<Longrightarrow> appending (avoids S) (\<lambda>v. Inr (validateCPU n v))"
  unfolding validateCPU_def if_distrib [of Inr] option.case_distrib [of Inr]
  by (intro leaf_rules; simp)

lemma forFields_eq:
  "forFields sw ps vis v =
     thenR (forPairs (\<lambda>k. sw (Value k)) ps v) (\<lambda>w. Inr (\<lambda>s. vis s \<or> s \<in> keysOf ps, w))"
proof (induction sw ps vis v rule: forFields.induct)
  case (3 sw k x rest vis v)
  show ?case
  proof (cases "sw (Value k) x v")
    case (Inl p)
    then show ?thesis by simp
  next
    case (Inr w)
    have eq: "(\<lambda>s. (vis(Value k := True)) s \<or> s \<in> keysOf rest) =
        (\<lambda>s. vis s \<or> s \<in> keysOf (k # x # rest))"
      by (auto simp: fun_eq_iff)
    have "forFields sw (k # x # rest) vis v = forFields sw rest (vis(Value k := True)) w"
      using Inr by simp
    also have "\<dots> = thenR (forPairs (\<lambda>k. sw (Value k)) rest w)
        (\<lambda>w. Inr (\<lambda>s. (vis(Value k := True)) s \<or> s \<in> keysOf rest, w))"
      by (rule 3)
    also have "\<dots> = thenR (forPairs (\<lambda>k. sw (Value k)) rest w)
        (\<lambda>w. Inr (\<lambda>s. vis s \<or> s \<in> keysOf (k # x # rest), w))"
      by (simp only: eq)
    also have "\<dots> = thenR (forPairs (\<lambda>k. sw (Value k)) (k # x # rest) v)
        (\<lambda>w. Inr (\<lambda>s. vis s \<or> s \<in> keysOf (k # x # rest), w))"
      using Inr by simp
    finally show ?thesis .
  qed
qed simp_all

lemma requireFields_emit:
  "requireFields R vis l v =
     emit (map (\<lambda>f. \<lparr>FilePath_e = FilePath v, Line_e = l, Message = f @ '' is required''\<rparr>)
             (filter (\<lambda>f. \<not> vis f) R)) v"
  by (induction R arbitrary: v) (simp_all add: addError_emit)

lemma object_eq:
  "object sw R n v =
     thenR (forPairs (\<lambda>k. sw (Value k)) (Content n) v)
       (\<lambda>w. Inr (requireFields R (\<lambda>s. s \<in> keysOf (Content n)) (Line n) w))"
  by (simp add: object_def forFields_eq thenR_assoc)

lemma validatePod_object: "validatePod = object validatePod_switch [''apiVersion'', ''kind'', ''metadata'', ''spec'']"
  by (intro ext) (simp add: validatePod_def object_def)

lemma validateMetadata_object: "validateMetadata = object validateMetadata_switch [''name'']"
  by (intro ext) (simp add: validateMetadata_def object_def)

lemma validateSpec_object: "validateSpec = object validateSpec_switch [''containers'']"
  by (intro ext) (simp add: validateSpec_def object_def)

lemma validateContainer_object: "validateContainer = object validateContainer_switch [''name'', ''image'', ''resources'']"
  by (intro ext) (simp add: validateContainer_def object_def)

lemma validatePort_object: "validatePort = object validatePort_switch [''containerPort'']"
  by (intro ext) (simp add: validatePort_def object_def)

lemma validateProbe_object: "validateProbe = object validateProbe_switch [''httpGet'']"
  by (intro ext) (simp add: validateProbe_def object_def)

lemma validateHTTPGet_object: "validateHTTPGet = object validateHTTPGet_switch [''path'', ''port'']"
  by (intro ext) (simp add: validateHTTPGet_def object_def)

lemma appending_requireFields:
  assumes "\<And>fp f. f \<in> set R \<Longrightarrow> \<not> vis f \<Longrightarrow>
    P \<lparr>FilePath_e = fp, Line_e = l, Message = f @ '' is required''\<rparr>"
  shows "appending P (\<lambda>v. Inr (requireFields R vis l v))"
proof (rule appendingI)
  fix fp
  let ?es = "map (\<lambda>f. \<lparr>FilePath_e = fp, Line_e = l, Message = f @ '' is required''\<rparr>)
             (filter (\<lambda>f. \<not> vis f) R)"
  have "list_all P ?es"
    using assms by (simp add: list_all_iff)
  then show "\<exists>r. (\<forall>v. FilePath v = fp \<longrightarrow>
        Inr (requireFields R vis l v) = map_sum id (\<lambda>es. emit es v) r) \<and>
      (\<forall>es. r = Inr es \<longrightarrow> list_all P es)"
    by (intro exI [of _ "Inr ?es"]) (simp add: requireFields_emit)
qed

lemma appending_object:
  assumes sw: "\<And>key x. appending P (sw key x)"
    and req: "\<And>fp f. f \<in> set R \<Longrightarrow> f \<notin> keysOf (Content n) \<Longrightarrow>
      P \<lparr>FilePath_e = fp, Line_e = Line n, Message = f @ '' is required''\<rparr>"
  shows "appending P (object sw R n)"
proof -
  have "object sw R n = (\<lambda>v. thenR (forPairs (\<lambda>k. sw (Value k)) (Content n) v)
       (\<lambda>w. Inr (requireFields R (\<lambda>s. s \<in> keysOf (Content n)) (Line n) w)))"
    by (rule ext) (rule object_eq)
  moreover have "appending P (forPairs (\<lambda>k. sw (Value k)) (Content n))"
    by (rule appending_forPairs) (rule sw)
  moreover have "appending P (\<lambda>w. Inr (requireFields R (\<lambda>s. s \<in> keysOf (Content n)) (Line n) w))"
    by (rule appending_requireFields) (simp add: req)
  ultimately show ?thesis
    by (simp add: appending_thenR)
qed

lemma appending_validateHTTPGet:
  assumes "S \<subseteq> requiredMsgs"
  shows "appending (avoids S) (validateHTTPGet n)"
  unfolding validateHTTPGet_object
proof (rule appending_object)
  fix key x
  show "appending (avoids S) (validateHTTPGet_switch key x)"
    unfolding validateHTTPGet_switch_def
    by (intro appending_if appending_skip appending_validateHTTPPath
        appending_validatePortNumber assms) simp
next
  fix fp f
  assume "f \<in> set [''path'', ''port'']"
  then show "avoids S \<lparr>FilePath_e = fp, Line_e = Line n, Message = f @ '' is required''\<rparr>"
    using assms by (auto intro: avoidsI)
qed


lemma appending_validateProbe:
  assumes "S \<subseteq> requiredMsgs"
  shows "appending (avoids S) (validateProbe n)"
  unfolding validateProbe_object
proof (rule appending_object)
  fix key x
  show "appending (avoids S) (validateProbe_switch key x)"
    unfolding validateProbe_switch_def
    by (intro appending_if appending_skip appending_validateHTTPGet assms)
next
  fix fp f
  assume "f \<in> set [''httpGet'']"
  then show "avoids S \<lparr>FilePath_e = fp, Line_e = Line n, Message = f @ '' is required''\<rparr>"
    using assms by (auto intro: avoidsI)
qed

lemma appending_validatePort:
  assumes "S \<subseteq> requiredMsgs"
  shows "appending (avoids S) (validatePort n)"
  unfolding validatePort_object
proof (rule appending_object)
  fix key x
  show "appending (avoids S) (validatePort_switch key x)"
    unfolding validatePort_switch_def
    by (intro appending_if appending_skip appending_validateProtocol
        appending_validatePortNumber assms) simp
next
  fix fp f
  assume "f \<in> set [''containerPort'']"
  then show "avoids S \<lparr>FilePath_e = fp, Line_e = Line n, Message = f @ '' is required''\<rparr>"
    using assms by (auto intro: avoidsI)
qed

lemma appending_validatePorts:
  assumes "S \<subseteq> requiredMsgs"
  shows "appending (avoids S) (validatePorts n)"
proof -
  have "validatePorts n = (\<lambda>v. if Kind n \<noteq> SequenceNode
      then Inr (addError (Line n) ''ports must be an array'' v)
      else forEach validatePort (Content n) v)"
    by (rule ext) (simp add: validatePorts_def)
  then show ?thesis
    using assms
    by (auto intro!: appending_if appending_addError appending_forEach appending_validatePort
        avoidsI)
qed

lemma appending_validateResourceRequirements:
  assumes "S \<subseteq> requiredMsgs"
  shows "appending (avoids S) (validateResourceRequirements n)"
proof -
  have "validateResourceRequirements n =
      forPairs (\<lambda>k x v. if Value k = ''cpu'' then Inr (validateCPU x v)
                 else if Value k = ''memory'' then Inr (validateMemory x v)
                 else Inr v) (Content n)"
    by (rule ext) (simp add: validateResourceRequirements_def)
  then show ?thesis
    using assms
    by (auto intro!: appending_forPairs appending_if appending_skip appending_validateCPU
        appending_validateMemory)
qed

lemma appending_validateResources:
  assumes "S \<subseteq> requiredMsgs"
  shows "appending (avoids S) (validateResources n)"
proof -
  have "validateResources n = forPairs (\<lambda>k x. validateResourceRequirements x) (Content n)"
    by (rule ext) (simp add: validateResources_def)
  then show ?thesis
    using assms by (auto intro!: appending_forPairs appending_validateResourceRequirements)
qed

lemma appending_validateLabels:
  assumes "S \<subseteq> requiredMsgs"
  shows "appending (avoids S) (validateLabels n)"
proof -
  have "validateLabels n = (\<lambda>v. if Kind n \<noteq> MappingNode
      then Inr (addError (Line n) ''labels must be a mapping'' v)
      else forPairs
        (\<lambda>k x v. if Kind x \<noteq> ScalarNode
                       then Inr (addError (Line x) ''label value must be string'' v) else Inr v)
        (Content n) v)"
    by (rule ext) (simp add: validateLabels_def if_distrib [of Inr])
  then show ?thesis
    using assms
    by (auto intro!: appending_if appending_addError appending_forPairs appending_skip avoidsI)
qed

lemma appending_validateContainer_switch:
  assumes "S \<subseteq> requiredMsgs"
  shows "appending (avoids S) (validateContainer_switch key x)"
  unfolding validateContainer_switch_def
  by (intro appending_if appending_skip appending_validateName appending_validateImage
      appending_validatePorts appending_validateProbe appending_validateResources assms)

lemma appending_validateContainer:
  assumes "S \<subseteq> {''containers is required''}"
  shows "appending (avoids S) (validateContainer n)"
  unfolding validateContainer_object
proof (rule appending_object)
  fix key x
  show "appending (avoids S) (validateContainer_switch key x)"
    using assms by (intro appending_validateContainer_switch) (auto simp: requiredMsgs_def)
next
  fix fp f
  assume "f \<in> set [''name'', ''image'', ''resources'']"
  then show "avoids S \<lparr>FilePath_e = fp, Line_e = Line n, Message = f @ '' is required''\<rparr>"
    using assms by (auto simp: avoids_def)
qed

lemma appending_validateContainers:
  assumes "S \<subseteq> {''containers is required''}"
  shows "appending (avoids S) (validateContainers n)"
proof -
  have "validateContainers n = (\<lambda>v. if Kind n \<noteq> SequenceNode
      then Inr (addError (Line n) ''containers must be an array'' v)
      else forEach validateContainer (Content n) v)"
    by (rule ext) (simp add: validateContainers_def)
  then show ?thesis
    using assms
    by (auto intro!: appending_if appending_addError appending_forEach
        appending_validateContainer simp: avoids_def)
qed

lemma appending_validateSpec_switch:
  assumes "S \<subseteq> {''containers is required''}"
  shows "appending (avoids S) (validateSpec_switch key x)"
  unfolding validateSpec_switch_def
  using assms
  by (intro appending_if appending_skip appending_validateOS appending_validateContainers)
    (auto simp: requiredMsgs_def)

lemma appending_validateSpec: "appending (avoids {}) (validateSpec n)"
  unfolding validateSpec_object
  by (rule appending_object) (simp_all add: appending_validateSpec_switch avoids_def)

lemma appending_validateMetadata: "appending (avoids {}) (validateMetadata n)"
  unfolding validateMetadata_object
proof (rule appending_object)
  fix key x
  show "appending (avoids {}) (validateMetadata_switch key x)"
    unfolding validateMetadata_switch_def
    by (intro appending_if appending_skip appending_validateName appending_validateLabels) simp_all
qed (simp add: avoids_def)

lemma appending_validatePod_switch: "appending (avoids {}) (validatePod_switch key x)"
  unfolding validatePod_switch_def
  by (intro appending_if appending_skip appending_validateAPIVersion appending_validateKind
      appending_validateMetadata appending_validateSpec) simp_all

lemma appending_validatePod: "appending (avoids {}) (validatePod n)"
  unfolding validatePod_object
  by (rule appending_object) (simp_all add: appending_validatePod_switch avoids_def)


section \<open>Removing and inserting pairs\<close>

lemma added_emit [simp]: "added v (emit es v) = es"
  by (simp add: added_def)

lemma keysOf_removeKey: "keysOf (removeKey f ps) = keysOf ps - {f}"
  by (induction f ps rule: removeKey.induct) auto

lemma forPairs_removeKey:
  assumes F: "\<And>k x. appending P (F k x)"
  shows "forPairs F ps v = Inr v \<Longrightarrow> forPairs F (removeKey f ps) v = Inr v"
proof (induction f ps rule: removeKey.induct)
  case (3 f k x rest)
  from 3(3) obtain w where w: "F k x v = Inr w" and rest: "forPairs F rest w = Inr v"
    by (auto simp: thenR_Inr_iff)
  from appending_Inr [OF F w] obtain es where es: "w = emit es v"
    by blast
  from appending_Inr [OF appending_forPairs rest, of P] F obtain es' where es': "v = emit es' w"
    by blast
  from es' have "es @ es' = []"
    unfolding es by simp
  then have "es = []"
    by simp
  with es have wv: "w = v"
    by simp
  with rest have r: "forPairs F rest v = Inr v"
    by simp
  show ?case
  proof (cases "Value k = f")
    case True
    with 3(1) r show ?thesis by simp
  next
    case False
    with 3(2) r w wv show ?thesis by simp
  qed
qed simp_all

lemma filter_eq_single:
  "distinct R \<Longrightarrow> f \<in> set R \<Longrightarrow> filter (\<lambda>g. g = f) R = [f]"
  by (induction R) (auto simp: filter_empty_conv)

lemma object_removeKey:
  assumes sw: "\<And>key x. appending P (sw key x)"
    and ok: "object sw R n v = Inr v"
    and f: "f \<in> set R" and R: "distinct R"
  shows "object sw R (Node kd val (removeKey f (Content n)) (Line n)) v =
    Inr (addError (Line n) (f @ '' is required'') v)"
proof -
  let ?F = "\<lambda>k. sw (Value k)"
  let ?K = "keysOf (Content n)"
  from ok obtain w where w: "forPairs ?F (Content n) v = Inr w"
    and req: "requireFields R (\<lambda>s. s \<in> ?K) (Line n) w = v"
    by (auto simp: object_eq thenR_Inr_iff)
  have app: "appending P (forPairs ?F (Content n))"
    by (rule appending_forPairs) (rule sw)
  from appending_Inr [OF app w] obtain es where es: "w = emit es v"
    by blast
  from req es have "es = [] \<and> filter (\<lambda>f. f \<notin> ?K) R = []"
    by (simp add: requireFields_emit)
  then have wv: "w = v" and all: "\<And>g. g \<in> set R \<Longrightarrow> g \<in> ?K"
    using es by (auto simp: filter_empty_conv)
  have "forPairs ?F (removeKey f (Content n)) v = Inr v"
    using w wv by (intro forPairs_removeKey [of P]) (simp_all add: sw)
  moreover have "filter (\<lambda>g. g \<notin> ?K - {f}) R = filter (\<lambda>g. g = f) R"
    by (rule filter_cong) (auto simp: all)
  then have "filter (\<lambda>g. g \<notin> ?K - {f}) R = [f]"
    using f R by (simp add: filter_eq_single)
  ultimately show ?thesis
    by (simp add: object_eq keysOf_removeKey requireFields_emit addError_emit)
qed

lemma forPairs_insert:
  assumes "even (length xs)" and "\<And>v. F k x v = Inr v"
  shows "forPairs F (xs @ k # x # ys) v = forPairs F (xs @ ys) v"
  using assms(1)
proof (induction xs arbitrary: v rule: induct_list012)
  case 1
  show ?case by (simp add: assms(2))
next
  case (2 a)
  then show ?case by simp
next
  case (3 a b rest)
  then have "forPairs F (rest @ k # x # ys) = forPairs F (rest @ ys)"
    by (intro ext) simp
  then show ?case by simp
qed

lemma keysOf_insert:
  "even (length xs) \<Longrightarrow> keysOf (xs @ k # x # ys) = insert (Value k) (keysOf (xs @ ys))"
  by (induction xs rule: induct_list012) auto

lemma requireFields_cong:
  "(\<And>f. f \<in> set R \<Longrightarrow> vis f = vis' f) \<Longrightarrow> requireFields R vis l v = requireFields R vis' l v"
  by (simp add: requireFields_emit cong: filter_cong)

lemma object_insert:
  assumes "even (length xs)" and "Value k \<notin> set R" and "\<And>v. sw (Value k) x v = Inr v"
  shows "object sw R (Node kd val (xs @ k # x # ys) l) v = object sw R (Node kd val (xs @ ys) l) v"
proof -
  have "requireFields R (\<lambda>s. s \<in> keysOf (xs @ k # x # ys)) l =
      requireFields R (\<lambda>s. s \<in> keysOf (xs @ ys)) l"
    using assms(1,2) by (intro ext requireFields_cong) (auto simp: keysOf_insert)
  moreover have "forPairs (\<lambda>k. sw (Value k)) (xs @ k # x # ys) v =
      forPairs (\<lambda>k. sw (Value k)) (xs @ ys) v"
    using assms(1,3) by (intro forPairs_insert) simp_all
  ultimately show ?thesis
    by (simp add: object_eq)
qed

lemma Validate_appends:
  assumes "Validate v = Inr (es, w)"
  shows "\<exists>new. es = Errors (ErrorCollector v) @ new \<and> w = emit new v \<and>
    (\<forall>v'. FilePath v' = FilePath v \<and> RootNode v' = RootNode v \<longrightarrow>
      Validate v' = Inr (Errors (ErrorCollector v') @ new, emit new v'))"
proof -
  from assms have w: "forEach validatePod (Content (RootNode v)) v = Inr w"
    and es: "es = Errors (ErrorCollector w)"
    by (auto simp: Validate_def thenR_Inr_iff)
  have "appending (avoids {}) (forEach validatePod (Content (RootNode v)))"
    by (rule appending_forEach) (rule appending_validatePod)
  from appending_Inr [OF this w] obtain new where 1: "w = emit new v"
    and 2: "\<And>v'. FilePath v' = FilePath v \<Longrightarrow>
      forEach validatePod (Content (RootNode v)) v' = Inr (emit new v')"
    by blast
  have "es = Errors (ErrorCollector v) @ new"
    using es 1 by simp
  moreover have "Validate v' = Inr (Errors (ErrorCollector v') @ new, emit new v')"
    if "FilePath v' = FilePath v" "RootNode v' = RootNode v" for v'
    using that 2 [of v'] by (simp add: Validate_def)
  ultimately show ?thesis
    using 1 by blast
qed

lemma forEach_Nil_fun [simp]: "forEach f [] = Inr"
  by (rule ext) simp

lemma Validate_single:
  "Validate (NewValidator fp (Node kd0 dv [d] dl)) =
     thenR (validatePod d (NewValidator fp (Node kd0 dv [d] dl)))
       (\<lambda>w. Inr (Errors (ErrorCollector w), w))"
  by (simp add: Validate_def NewValidator_def)

lemma object_present:
  assumes sw: "\<And>key x. appending P (sw key x)"
    and req: "\<And>fp f. f \<in> set R \<Longrightarrow> f \<notin> keysOf (Content n) \<Longrightarrow>
      P \<lparr>FilePath_e = fp, Line_e = Line n, Message = f @ '' is required''\<rparr>"
    and res: "object sw R n v = Inr w"
  shows "w = emit (added v w) v \<and> list_all P (added v w)"
proof -
  from appending_Inr [OF appending_object res, of P] sw req
  obtain es where "w = emit es v" and "list_all P es"
    by blast
  then show ?thesis by simp
qed

section \<open>Matching and parsing\<close>

lemma matches_Fail [simp]: "matches Fail s = False"
  by (induction s) auto

lemma matches_Empty [simp]: "matches Empty s \<longleftrightarrow> s = []"
  by (cases s) auto

lemma matches_Or [simp]: "matches (Or r q) s \<longleftrightarrow> matches r s \<or> matches q s"
  by (induction s arbitrary: r q) auto

lemma matches_Cat_Fail [simp]: "matches (Cat Fail r) s = False"
  by (induction s) auto

lemma matches_Cat_Empty [simp]: "matches (Cat Empty r) s = matches r s"
  by (cases s) auto

lemma matches_Cat_Class:
  "matches (Cat (Class P) r) s \<longleftrightarrow> (\<exists>c cs. s = c # cs \<and> P c \<and> matches r cs)"
  by (cases s) auto

lemma matches_Rep_Class: "matches (Rep (Class P)) s \<longleftrightarrow> list_all P s"
  by (induction s) auto

lemma matches_rep1_Class: "matches (rep1 (Class P)) s \<longleftrightarrow> s \<noteq> [] \<and> list_all P s"
  by (cases s) (auto simp: rep1_def matches_Rep_Class)

lemma matches_unit: "matches RegexMemory_unit u \<longleftrightarrow> u \<in> units"
  by (auto simp: RegexMemory_unit_def lit_def matches_Cat_Class units_def)

lemma split_amount:
  assumes "list_all digit d" and "u \<in> units"
  shows "takeWhile digit (d @ u) = d" and "dropWhile digit (d @ u) = u"
proof -
  have "takeWhile digit u = []" "dropWhile digit u = u"
    using assms(2) by (auto simp: units_def digit_def)
  moreover have "\<And>c. c \<in> set d \<Longrightarrow> digit c"
    using assms(1) by (simp add: list_all_iff)
  ultimately show "takeWhile digit (d @ u) = d" and "dropWhile digit (d @ u) = u"
    by (simp_all add: takeWhile_append2 dropWhile_append2)
qed

lemma FindStringSubmatch2_memory:
  "FindStringSubmatch2 RegexMemory_amount RegexMemory_unit s =
     (if \<exists>d u. s = d @ u \<and> d \<noteq> [] \<and> list_all digit d \<and> u \<in> units
      then Some [s, takeWhile digit s, dropWhile digit s] else None)"
proof -
  let ?Q = "\<lambda>n. matches RegexMemory_amount (take n s) \<and> matches RegexMemory_unit (drop n s)"
  let ?ns = "filter ?Q (rev [0 ..< Suc (length s)])"
  have Q: "?Q n \<longleftrightarrow> take n s \<noteq> [] \<and> list_all digit (take n s) \<and> drop n s \<in> units" for n
    by (simp add: RegexMemory_amount_def matches_rep1_Class matches_unit)
  show ?thesis
  proof (cases ?ns)
    case Nil
    have "\<not> (\<exists>d u. s = d @ u \<and> d \<noteq> [] \<and> list_all digit d \<and> u \<in> units)"
    proof
      assume "\<exists>d u. s = d @ u \<and> d \<noteq> [] \<and> list_all digit d \<and> u \<in> units"
      then obtain d u where "s = d @ u" "d \<noteq> []" "list_all digit d" "u \<in> units"
        by blast
      then have "take (length d) s = d" "drop (length d) s = u"
        and "length d \<in> set (rev [0 ..< Suc (length s)])"
        by simp_all
      with Q [of "length d"] \<open>d \<noteq> []\<close> \<open>list_all digit d\<close> \<open>u \<in> units\<close>
      have inQ: "?Q (length d)" and inR: "length d \<in> set (rev [0 ..< Suc (length s)])"
        by simp_all
      have "length d \<in> set ?ns"
        by (simp only: set_filter mem_Collect_eq inR inQ simp_thms)
      with Nil show False
        by simp
    qed
    with Nil show ?thesis
      by (simp add: FindStringSubmatch2_def)
  next
    case (Cons n rest)
    then have "n \<in> set ?ns"
      by simp
    then have "?Q n"
      by (simp only: set_filter mem_Collect_eq)
    then have "take n s \<noteq> [] \<and> list_all digit (take n s) \<and> drop n s \<in> units"
      using Q [of n] by blast
    then have n: "take n s \<noteq> []" "list_all digit (take n s)" "drop n s \<in> units"
      by blast+
    have s: "s = take n s @ drop n s"
      by simp
    have "takeWhile digit s = take n s" "dropWhile digit s = drop n s"
      using split_amount [OF n(2,3)] by simp_all
    moreover have "\<exists>d u. s = d @ u \<and> d \<noteq> [] \<and> list_all digit d \<and> u \<in> units"
      using n s by blast
    ultimately show ?thesis
      using Cons by (simp add: FindStringSubmatch2_def)
  qed
qed

lemma digitVal_range: "digit c \<Longrightarrow> 0 \<le> digitVal c \<and> digitVal c \<le> 9"
  by (auto simp: digit_def digitVal_def)

lemma foldl_decimal_nonneg:
  "list_all digit d \<Longrightarrow> 0 \<le> a \<Longrightarrow> 0 \<le> foldl (\<lambda>a c. 10 * a + digitVal c) a d"
proof (induction d arbitrary: a)
  case (Cons c d)
  then have "0 \<le> 10 * a + digitVal c"
    using digitVal_range [of c] by simp
  with Cons show ?case by simp
qed simp

lemma decimal_nonneg: "list_all digit d \<Longrightarrow> 0 \<le> decimal d"
  by (simp add: decimal_def foldl_decimal_nonneg)

lemma Atoi_digits:
  assumes "d \<noteq> []" and "list_all digit d"
  shows "Atoi d = (if decimal d < 2 ^ 63 then Some (decimal d) else None)"
proof -
  from assms obtain c cs where d: "d = c # cs" and c: "digit c"
    by (cases d) auto
  from c have "c \<noteq> CHR ''-''" "c \<noteq> CHR ''+''"
    by (auto simp: digit_def)
  moreover have "0 \<le> decimal d"
    using assms(2) by (rule decimal_nonneg)
  ultimately show ?thesis
    using assms(2) d by (simp add: Atoi_def Let_def)
qed

section \<open>Evaluating the validator on a given document\<close>

lemmas eval_defs =
  validatePod_def validatePod_switch_def validateMetadata_def validateMetadata_switch_def
  validateSpec_def validateSpec_switch_def validateContainers_def validateContainer_def
  validateContainer_switch_def validatePorts_def validatePort_def validatePort_switch_def
  validateProbe_def validateProbe_switch_def validateHTTPGet_def validateHTTPGet_switch_def
  validateResources_def validateResourceRequirements_def validateLabels_def validateCPU_def
  validateMemory_def validateHTTPPath_def validateProtocol_def validatePortNumber_def
  validateImage_def validateName_def validateOS_def validateKind_def validateAPIVersion_def
  object_def addError_def Add_def quoted_def ContainsString_def PortNumberMin_def
  PortNumberMax_def SupportedProtocols_def SupportedOSNames_def RegexAbsolutePath_def
  RegexMemory_unit_def RegexMemory_amount_def RegexImage_def RegexSnakeCase_def KindExpected_def
  APIVersionExpected_def FindStringSubmatch2_def Atoi_def decimal_def digitVal_def digit_def
  lower_def dot_def rep1_def lit_def Validate_def NewValidator_def scalar_def mapping_def
  sequence_def emit_def

lemmas doc_defs =
  resourcesA_def containerOf_def podPairs_def podOf_def containerA_def scenarioA_def
  scenarioB_def blockLines_def podNoSpec_def resourcesExtra_def containerExtra_def

text \<open>Scenario A has no error, whatever the lines of its nodes.\<close>

lemma Validate_scenarioA:
  "map_sum id fst (Validate (NewValidator fp (scenarioA L))) = Inr []"
  by (simp add: eval_defs scenarioA_def containerA_def podOf_def podPairs_def containerOf_def
      resourcesA_def)

section \<open>The claims\<close>

subsection \<open>C1: a port with a protocol and no containerPort\<close>

text \<open>
  C1 (as amended).  A port node whose only pair is \<open>protocol: HTTP\<close>, the value a
  scalar, gets exactly two errors.  The first is \<open>protocol has unsupported value 'HTTP'\<close>,
  on the line of the value node: the pairs are visited before the required fields are
  checked.  The second is \<open>containerPort is required\<close>, on the line of the port node.
\<close>

theorem validatePort_protocol_only:
  assumes "Content n = [k, x]" and "Value k = ''protocol''"
    and "Kind x = ScalarNode" and "Value x = ''HTTP''"
  shows "validatePort n v =
     Inr (emit
       [\<lparr>FilePath_e = FilePath v, Line_e = Line x,
          Message = ''protocol has unsupported value '' @ quoted ''HTTP''\<rparr>,
        \<lparr>FilePath_e = FilePath v, Line_e = Line n,
          Message = ''containerPort is required''\<rparr>] v)"
  using assms by (simp add: eval_defs)

theorem validatePort_protocol_only_witness:
  "validatePort (mapping [scalar ''protocol'' 3, scalar ''HTTP'' 3] 3)
       (NewValidator ''pod.yaml'' (scalar [] 1)) =
     Inr (emit
       [\<lparr>FilePath_e = ''pod.yaml'', Line_e = 3,
          Message = ''protocol has unsupported value '' @ quoted ''HTTP''\<rparr>,
        \<lparr>FilePath_e = ''pod.yaml'', Line_e = 3,
          Message = ''containerPort is required''\<rparr>]
       (NewValidator ''pod.yaml'' (scalar [] 1)))"
  using validatePort_protocol_only [of "mapping [scalar ''protocol'' 3, scalar ''HTTP'' 3] 3"
      "scalar ''protocol'' 3" "scalar ''HTTP'' 3" "NewValidator ''pod.yaml'' (scalar [] 1)"]
  by (simp add: mapping_def scalar_def NewValidator_def)

text \<open>
  The claim as it stands fails on the port \<open>protocol:\<close> (line 9) with \<open>HTTP\<close> on
  line 10: the protocol error comes first and carries line 10, and the result is not the
  list the claim gives.
\<close>

theorem validatePort_protocol_only_counterexample:
  "validatePort (mapping [scalar ''protocol'' 9, scalar ''HTTP'' 10] 9)
       (NewValidator ''pod.yaml'' (scalar [] 1)) =
     Inr (emit
       [\<lparr>FilePath_e = ''pod.yaml'', Line_e = 10,
          Message = ''protocol has unsupported value '' @ quoted ''HTTP''\<rparr>,
        \<lparr>FilePath_e = ''pod.yaml'', Line_e = 9,
          Message = ''containerPort is required''\<rparr>]
       (NewValidator ''pod.yaml'' (scalar [] 1)))
   \<and> validatePort (mapping [scalar ''protocol'' 9, scalar ''HTTP'' 10] 9)
       (NewValidator ''pod.yaml'' (scalar [] 1)) \<noteq>
     Inr (emit
       [\<lparr>FilePath_e = ''pod.yaml'', Line_e = 9,
          Message = ''containerPort is required''\<rparr>,
        \<lparr>FilePath_e = ''pod.yaml'', Line_e = 9,
          Message = ''protocol has unsupported value '' @ quoted ''HTTP''\<rparr>]
       (NewValidator ''pod.yaml'' (scalar [] 1)))"
  by (simp add: eval_defs)

subsection \<open>C2: scenario B\<close>

text \<open>
  C2 (as amended).  For the document of scenario A with the container named \<open>WebApp\<close>
  and the image \<open>docker.io/app:1.0\<close>, \<open>Validate\<close> returns exactly two errors, in this
  order: \<open>name has invalid format 'WebApp'\<close> on the line of the name's value node, and
  \<open>image has invalid format 'docker.io/app:1.0'\<close> on the line of the image's value
  node, wherever the nodes stand in the file.
\<close>

theorem Validate_scenarioB:
  "map_sum id fst (Validate (NewValidator fp (scenarioB L))) =
     Inr [\<lparr>FilePath_e = fp, Line_e = L 16,
            Message = ''name has invalid format '' @ quoted ''WebApp''\<rparr>,
          \<lparr>FilePath_e = fp, Line_e = L 18,
            Message = ''image has invalid format '' @ quoted ''docker.io/app:1.0''\<rparr>]"
  by (simp add: eval_defs scenarioB_def podOf_def podPairs_def containerOf_def resourcesA_def)

theorem Validate_scenarioB_witness:
  "map_sum id fst (Validate (NewValidator ''pod.yaml'' (scenarioB blockLines))) =
     Inr [\<lparr>FilePath_e = ''pod.yaml'', Line_e = blockLines 16,
            Message = ''name has invalid format '' @ quoted ''WebApp''\<rparr>,
          \<lparr>FilePath_e = ''pod.yaml'', Line_e = blockLines 18,
            Message = ''image has invalid format '' @ quoted ''docker.io/app:1.0''\<rparr>]"
  using Validate_scenarioB [of "''pod.yaml''" blockLines] by simp

text \<open>
  The claim as it stands fails on the block-style file: the container node is on line 7,
  the image error carries line 8.
\<close>

theorem Validate_scenarioB_counterexample:
  "map_sum id fst (Validate (NewValidator ''pod.yaml'' (scenarioB blockLines))) =
     Inr [\<lparr>FilePath_e = ''pod.yaml'', Line_e = 7,
            Message = ''name has invalid format '' @ quoted ''WebApp''\<rparr>,
          \<lparr>FilePath_e = ''pod.yaml'', Line_e = 8,
            Message = ''image has invalid format '' @ quoted ''docker.io/app:1.0''\<rparr>]
   \<and> Line (containerOf ''WebApp'' ''docker.io/app:1.0'' (resourcesA blockLines) blockLines) = 7"
  by (simp add: eval_defs doc_defs)

subsection \<open>C3: validating twice\<close>

text \<open>
  C3 (as amended).  \<open>Validate\<close> adds the errors of the document to whatever the
  collector of its validator holds, and returns the whole collector.  So when a new
  validator returns \<open>es\<close> for a document, every new validator for that document and
  path returns \<open>es\<close> (take \<open>c = []\<close>); a second call on the same validator returns
  \<open>es @ es\<close>, since nothing empties the collector between the calls.
\<close>

theorem Validate_twice:
  assumes "Validate (NewValidator fp root) = Inr (es, w)"
  shows "w = emit es (NewValidator fp root) \<and>
    Validate w = Inr (es @ es, emit es w) \<and>
    Validate (emit c (NewValidator fp root)) = Inr (c @ es, emit (c @ es) (NewValidator fp root))"
proof -
  from Validate_appends [OF assms] obtain new
    where 1: "es = Errors (ErrorCollector (NewValidator fp root)) @ new"
    and 2: "w = emit new (NewValidator fp root)"
    and 3: "\<And>v'. FilePath v' = FilePath (NewValidator fp root) \<Longrightarrow>
      RootNode v' = RootNode (NewValidator fp root) \<Longrightarrow>
      Validate v' = Inr (Errors (ErrorCollector v') @ new, emit new v')"
    by blast
  from 1 have new: "new = es"
    by (simp add: NewValidator_def)
  from 3 [of w] 2 have "Validate w = Inr (es @ es, emit es w)"
    by (simp add: new NewValidator_def)
  moreover from 3 [of "emit c (NewValidator fp root)"]
  have "Validate (emit c (NewValidator fp root)) =
      Inr (c @ es, emit (c @ es) (NewValidator fp root))"
    by (simp add: new NewValidator_def)
  ultimately show ?thesis
    using 2 new by simp
qed

theorem Validate_twice_witness:
  "Validate (emit [\<lparr>FilePath_e = ''pod.yaml'', Line_e = 1, Message = ''spec is required''\<rparr>]
       (NewValidator ''pod.yaml'' podNoSpec)) =
     Inr ([\<lparr>FilePath_e = ''pod.yaml'', Line_e = 1, Message = ''spec is required''\<rparr>,
           \<lparr>FilePath_e = ''pod.yaml'', Line_e = 1, Message = ''spec is required''\<rparr>],
          emit [\<lparr>FilePath_e = ''pod.yaml'', Line_e = 1, Message = ''spec is required''\<rparr>,
                \<lparr>FilePath_e = ''pod.yaml'', Line_e = 1, Message = ''spec is required''\<rparr>]
            (NewValidator ''pod.yaml'' podNoSpec))"
proof -
  have "Validate (NewValidator ''pod.yaml'' podNoSpec) =
      Inr ([\<lparr>FilePath_e = ''pod.yaml'', Line_e = 1, Message = ''spec is required''\<rparr>],
        emit [\<lparr>FilePath_e = ''pod.yaml'', Line_e = 1, Message = ''spec is required''\<rparr>]
          (NewValidator ''pod.yaml'' podNoSpec))"
    by (simp add: eval_defs doc_defs)
  from Validate_twice [OF this, of "[]"] show ?thesis
    by simp
qed

text \<open>
  The claim as it stands fails for two calls on one validator: for scenario A without
  its \<open>spec\<close> the first call returns one error, the second returns it twice.
\<close>

theorem Validate_twice_counterexample:
  "Validate (NewValidator ''pod.yaml'' podNoSpec) =
     Inr ([\<lparr>FilePath_e = ''pod.yaml'', Line_e = 1, Message = ''spec is required''\<rparr>],
          emit [\<lparr>FilePath_e = ''pod.yaml'', Line_e = 1, Message = ''spec is required''\<rparr>]
            (NewValidator ''pod.yaml'' podNoSpec))
   \<and> Validate (emit [\<lparr>FilePath_e = ''pod.yaml'', Line_e = 1, Message = ''spec is required''\<rparr>]
       (NewValidator ''pod.yaml'' podNoSpec)) =
     Inr ([\<lparr>FilePath_e = ''pod.yaml'', Line_e = 1, Message = ''spec is required''\<rparr>,
           \<lparr>FilePath_e = ''pod.yaml'', Line_e = 1, Message = ''spec is required''\<rparr>],
          emit [\<lparr>FilePath_e = ''pod.yaml'', Line_e = 1, Message = ''spec is required''\<rparr>,
                \<lparr>FilePath_e = ''pod.yaml'', Line_e = 1, Message = ''spec is required''\<rparr>]
            (NewValidator ''pod.yaml'' podNoSpec))"
  by (simp add: eval_defs doc_defs)

subsection \<open>C4: a top-level field removed from a valid document\<close>

text \<open>
  C4.  Take any document whose root has the children \<open>ps\<close> and for which \<open>Validate\<close>
  returns no error (every minimal valid document is one), and any of the fields
  \<open>apiVersion\<close>, \<open>kind\<close>, \<open>metadata\<close>, \<open>spec\<close>.  With the pairs of that field
  removed, \<open>Validate\<close> returns exactly one error: \<open><field> is required\<close>, on the line
  of the root mapping.
\<close>

theorem top_level_field_required:
  assumes "map_sum id fst
      (Validate (NewValidator fp (Node DocumentNode dv [Node kd mv ps l] dl))) = Inr []"
    and "f \<in> {''apiVersion'', ''kind'', ''metadata'', ''spec''}"
  shows "map_sum id fst
      (Validate (NewValidator fp (Node DocumentNode dv [Node kd mv (removeKey f ps) l] dl))) =
    Inr [\<lparr>FilePath_e = fp, Line_e = l, Message = f @ '' is required''\<rparr>]"
proof -
  let ?v = "\<lambda>p. NewValidator fp (Node DocumentNode dv [Node kd mv p l] dl)"
  let ?R = "[''apiVersion'', ''kind'', ''metadata'', ''spec'']"
  from assms(1) obtain w where w: "validatePod (Node kd mv ps l) (?v ps) = Inr w"
    and e: "Errors (ErrorCollector w) = []"
    unfolding Validate_single
    by (cases "validatePod (Node kd mv ps l) (?v ps)") auto
  from appending_Inr [OF appending_validatePod w] obtain es where es: "w = emit es (?v ps)"
    and same: "\<And>v'. FilePath v' = FilePath (?v ps) \<Longrightarrow>
      validatePod (Node kd mv ps l) v' = Inr (emit es v')"
    by blast
  from e es have "es = []"
    by (simp add: NewValidator_def)
  with same [of "?v (removeKey f ps)"]
  have "object validatePod_switch ?R (Node kd mv ps l) (?v (removeKey f ps)) =
      Inr (?v (removeKey f ps))"
    by (simp add: NewValidator_def validatePod_object)
  then have "object validatePod_switch ?R
      (Node kd mv (removeKey f (Content (Node kd mv ps l))) (Line (Node kd mv ps l)))
      (?v (removeKey f ps)) =
    Inr (addError (Line (Node kd mv ps l)) (f @ '' is required'') (?v (removeKey f ps)))"
    using assms(2)
    by (intro object_removeKey [of "avoids {}"]) (auto simp: appending_validatePod_switch)
  then show ?thesis
    unfolding Validate_single
    by (simp add: validatePod_object addError_emit NewValidator_def)
qed

theorem top_level_field_required_witness:
  "map_sum id fst (Validate (NewValidator ''pod.yaml''
       (Node DocumentNode [] [Node MappingNode []
          (removeKey ''kind'' (podPairs (containerA blockLines) blockLines)) 1] 1))) =
     Inr [\<lparr>FilePath_e = ''pod.yaml'', Line_e = 1, Message = ''kind is required''\<rparr>]"
proof -
  have "map_sum id fst (Validate (NewValidator ''pod.yaml''
       (Node DocumentNode [] [Node MappingNode []
          (podPairs (containerA blockLines) blockLines) 1] 1))) = Inr []"
    by (simp add: eval_defs doc_defs)
  from top_level_field_required [OF this, of "''kind''"] show ?thesis
    by simp
qed

subsection \<open>C5: an empty list of containers\<close>

text \<open>
  C5.  Let a spec node have a pair whose key is \<open>containers\<close> and whose value is an
  empty sequence.  When \<open>validateSpec\<close> returns, what it has added to the collector has
  no error \<open>containers is required\<close>: the key being there is what the check of the
  required fields looks at, not what its value holds.
\<close>

theorem containers_key_present:
  assumes "Content n = xs @ k # x # ys" and "even (length xs)"
    and "Value k = ''containers''" and "Kind x = SequenceNode" and "Content x = []"
    and "validateSpec n v = Inr w"
  shows "w = emit (added v w) v \<and>
    list_all (\<lambda>e. Message e \<noteq> ''containers is required'') (added v w)"
proof -
  have "''containers'' \<in> keysOf (Content n)"
    using assms(1,2,3) by (simp add: keysOf_insert)
  then have "w = emit (added v w) v \<and> list_all (avoids {''containers is required''}) (added v w)"
    using assms(6) unfolding validateSpec_object
    by (intro object_present [of _ validateSpec_switch "[''containers'']" n])
      (auto simp: appending_validateSpec_switch)
  then show ?thesis
    by (simp add: list_all_iff avoids_def)
qed

theorem containers_key_present_witness:
  "validateSpec
       (mapping [scalar ''os'' 5, scalar ''plan9'' 5, scalar ''containers'' 6, sequence [] 6] 5)
       (NewValidator ''pod.yaml'' (scalar [] 1)) =
     Inr (emit [\<lparr>FilePath_e = ''pod.yaml'', Line_e = 5,
                  Message = ''os has unsupported value '' @ quoted ''plan9''\<rparr>] (NewValidator ''pod.yaml'' (scalar [] 1)))
   \<and> list_all (\<lambda>e. Message e \<noteq> ''containers is required'')
       (added (NewValidator ''pod.yaml'' (scalar [] 1))
          (emit [\<lparr>FilePath_e = ''pod.yaml'', Line_e = 5,
                   Message = ''os has unsupported value '' @ quoted ''plan9''\<rparr>] (NewValidator ''pod.yaml'' (scalar [] 1))))"
proof -
  have "validateSpec
       (mapping [scalar ''os'' 5, scalar ''plan9'' 5, scalar ''containers'' 6, sequence [] 6] 5)
       (NewValidator ''pod.yaml'' (scalar [] 1)) =
     Inr (emit [\<lparr>FilePath_e = ''pod.yaml'', Line_e = 5,
                  Message = ''os has unsupported value '' @ quoted ''plan9''\<rparr>] (NewValidator ''pod.yaml'' (scalar [] 1)))"
    by (simp add: eval_defs)
  with containers_key_present
    [of "mapping [scalar ''os'' 5, scalar ''plan9'' 5, scalar ''containers'' 6, sequence [] 6] 5"
      "[scalar ''os'' 5, scalar ''plan9'' 5]" "scalar ''containers'' 6" "sequence [] 6" "[]" "(NewValidator ''pod.yaml'' (scalar [] 1))"
      "emit [\<lparr>FilePath_e = ''pod.yaml'', Line_e = 5,
                  Message = ''os has unsupported value '' @ quoted ''plan9''\<rparr>] (NewValidator ''pod.yaml'' (scalar [] 1))"]
  show ?thesis
    by (simp add: mapping_def scalar_def sequence_def)
qed

subsection \<open>C6: the ranges of ports and cpu\<close>

text \<open>
  C6.  For a scalar whose text \<open>strconv.Atoi\<close> parses as \<open>p\<close>, the port check adds
  \<open><field> value out of range\<close> exactly when \<open>p < 1\<close> or \<open>p > 65535\<close>, and the cpu
  check adds \<open>cpu value out of range\<close> exactly when \<open>p < 1\<close>.  In particular the ports
  0 and 65536 fail and 1 and 65535 pass; cpu 0 fails and cpu 1 passes.
\<close>

theorem port_and_cpu_range:
  "(Kind n = ScalarNode \<and> Atoi (Value n) = Some p \<longrightarrow>
      validatePortNumber n fieldName v =
        (if p < 1 \<or> 65535 < p then addError (Line n) (fieldName @ '' value out of range'') v
         else v) \<and>
      validateCPU n v = (if p < 1 then addError (Line n) ''cpu value out of range'' v else v))
   \<and> validatePortNumber (scalar ''0'' l) fieldName v =
        addError l (fieldName @ '' value out of range'') v
   \<and> validatePortNumber (scalar ''65536'' l) fieldName v =
        addError l (fieldName @ '' value out of range'') v
   \<and> validatePortNumber (scalar ''1'' l) fieldName v = v
   \<and> validatePortNumber (scalar ''65535'' l) fieldName v = v
   \<and> validateCPU (scalar ''0'' l) v = addError l ''cpu value out of range'' v
   \<and> validateCPU (scalar ''1'' l) v = v"
  by (simp add: validatePortNumber_def validateCPU_def PortNumberMin_def PortNumberMax_def
      scalar_def Atoi_def decimal_def digitVal_def digit_def)

theorem port_and_cpu_range_witness:
  "validatePortNumber (scalar ''70000'' 3) ''containerPort''
       (NewValidator ''pod.yaml'' (scalar [] 1)) =
     addError 3 ''containerPort value out of range'' (NewValidator ''pod.yaml'' (scalar [] 1))
   \<and> validateCPU (scalar ''70000'' 3) (NewValidator ''pod.yaml'' (scalar [] 1)) =
     NewValidator ''pod.yaml'' (scalar [] 1)"
  using port_and_cpu_range [of "scalar ''70000'' 3" 70000 "''containerPort''"
      "NewValidator ''pod.yaml'' (scalar [] 1)"]
  by (simp add: scalar_def Atoi_def decimal_def digitVal_def digit_def)

subsection \<open>C7: memory quantities\<close>

text \<open>
  C7.  A scalar memory value passes when it is one or more digits followed by \<open>Mi\<close>,
  \<open>Gi\<close> or \<open>Ki\<close> and the number the digits write is at least 1 (and is an \<open>int\<close>,
  that is below \<open>2^63\<close>); with such a shape and another number the error is
  \<open>memory value out of range\<close>; with any other shape it is
  \<open>memory has invalid format '<value>'\<close>.  So \<open>512Mi\<close>, \<open>1Ki\<close> and \<open>1Gi\<close> pass,
  \<open>512\<close> has an invalid format and \<open>0Mi\<close> is out of range.
\<close>

theorem memory_format:
  "(Kind n = ScalarNode \<and> Value n = d @ u \<and> d \<noteq> [] \<and> list_all digit d \<and>
      u \<in> {''Mi'', ''Gi'', ''Ki''} \<longrightarrow>
    validateMemory n v =
      (if 1 \<le> decimal d \<and> decimal d < 2 ^ 63 then v
       else addError (Line n) ''memory value out of range'' v))
   \<and> (Kind n = ScalarNode \<and>
      \<not> (\<exists>d u. Value n = d @ u \<and> d \<noteq> [] \<and> list_all digit d \<and>
            u \<in> {''Mi'', ''Gi'', ''Ki''}) \<longrightarrow>
    validateMemory n v =
      addError (Line n) (''memory has invalid format '' @ quoted (Value n)) v)
   \<and> validateMemory (scalar ''512Mi'' l) v = v
   \<and> validateMemory (scalar ''1Ki'' l) v = v
   \<and> validateMemory (scalar ''1Gi'' l) v = v
   \<and> validateMemory (scalar ''512'' l) v =
        addError l (''memory has invalid format '' @ quoted ''512'') v
   \<and> validateMemory (scalar ''0Mi'' l) v = addError l ''memory value out of range'' v"
proof -
  have 1: "validateMemory n v =
      (if 1 \<le> decimal d \<and> decimal d < 2 ^ 63 then v
       else addError (Line n) ''memory value out of range'' v)"
    if "Kind n = ScalarNode" "Value n = d @ u" "d \<noteq> []" "list_all digit d"
      "u \<in> {''Mi'', ''Gi'', ''Ki''}"
  proof -
    have u: "u \<in> units"
      using that(5) by (simp add: units_def)
    then have "\<exists>d u. Value n = d @ u \<and> d \<noteq> [] \<and> list_all digit d \<and> u \<in> units"
      using that by blast
    then have "FindStringSubmatch2 RegexMemory_amount RegexMemory_unit (Value n) =
        Some [Value n, takeWhile digit (Value n), dropWhile digit (Value n)]"
      unfolding FindStringSubmatch2_memory by (rule if_P)
    moreover have "takeWhile digit (Value n) = d"
      using split_amount(1) [OF that(4) u] that(2) by simp
    ultimately show ?thesis
      using that(1,3,4) by (auto simp: validateMemory_def Atoi_digits)
  qed
  have 2: "validateMemory n v =
      addError (Line n) (''memory has invalid format '' @ quoted (Value n)) v"
    if "Kind n = ScalarNode"
      "\<not> (\<exists>d u. Value n = d @ u \<and> d \<noteq> [] \<and> list_all digit d \<and>
            u \<in> {''Mi'', ''Gi'', ''Ki''})"
  proof -
    have "\<not> (\<exists>d u. Value n = d @ u \<and> d \<noteq> [] \<and> list_all digit d \<and> u \<in> units)"
      using that(2) by (simp add: units_def)
    then have "FindStringSubmatch2 RegexMemory_amount RegexMemory_unit (Value n) = None"
      unfolding FindStringSubmatch2_memory by (rule if_not_P)
    then show ?thesis
      using that(1) by (simp add: validateMemory_def)
  qed
  have 3: "validateMemory (scalar ''512Mi'' l) v = v"
    "validateMemory (scalar ''1Ki'' l) v = v"
    "validateMemory (scalar ''1Gi'' l) v = v"
    "validateMemory (scalar ''512'' l) v =
        addError l (''memory has invalid format '' @ quoted ''512'') v"
    "validateMemory (scalar ''0Mi'' l) v = addError l ''memory value out of range'' v"
    by (simp_all add: validateMemory_def scalar_def FindStringSubmatch2_def RegexMemory_amount_def
        RegexMemory_unit_def rep1_def lit_def digit_def Atoi_def decimal_def digitVal_def)
  from 1 2 3 show ?thesis
    by blast
qed

theorem memory_format_witness:
  "validateMemory (scalar ''256Mi'' 12) (NewValidator ''pod.yaml'' (scalar [] 1)) =
     NewValidator ''pod.yaml'' (scalar [] 1)
   \<and> validateMemory (scalar ''9223372036854775808Mi'' 12)
       (NewValidator ''pod.yaml'' (scalar [] 1)) =
     addError 12 ''memory value out of range'' (NewValidator ''pod.yaml'' (scalar [] 1))
   \<and> validateMemory (scalar ''12Mb'' 12) (NewValidator ''pod.yaml'' (scalar [] 1)) =
     addError 12 (''memory has invalid format '' @ quoted ''12Mb'')
       (NewValidator ''pod.yaml'' (scalar [] 1))"
proof -
  let ?v = "NewValidator ''pod.yaml'' (scalar [] 1)"
  have "validateMemory (scalar ''256Mi'' 12) ?v = ?v"
    using memory_format [of "scalar ''256Mi'' 12" "''256''" "''Mi''" ?v]
    by (simp add: scalar_def digit_def decimal_def digitVal_def)
  moreover have "validateMemory (scalar ''9223372036854775808Mi'' 12) ?v =
      addError 12 ''memory value out of range'' ?v"
    using memory_format [of "scalar ''9223372036854775808Mi'' 12" "''9223372036854775808''"
        "''Mi''" ?v]
    by (simp add: scalar_def digit_def decimal_def digitVal_def)
  moreover have "\<not> (\<exists>d u. Value (scalar ''12Mb'' 12) = d @ u \<and> d \<noteq> [] \<and> list_all digit d \<and>
      u \<in> {''Mi'', ''Gi'', ''Ki''})"
    by (auto simp: scalar_def Cons_eq_append_conv)
  then have "validateMemory (scalar ''12Mb'' 12) ?v =
      addError 12 (''memory has invalid format '' @ quoted ''12Mb'') ?v"
    using memory_format [of "scalar ''12Mb'' 12" "[]" "[]" ?v]
    by (simp add: scalar_def)
  ultimately show ?thesis
    by simp
qed

subsection \<open>C8: keys that no rule knows\<close>

text \<open>
  C8 (as amended).  In a node validated as a pod, a metadata, a spec, a container, a
  port, a probe, an httpGet or the requirements of one resource class, a pair put between
  two pairs (or before the first, or after the last) changes nothing in the result when
  its key is none of the keys that validator dispatches on.  The mappings of
  \<open>resources\<close> and of \<open>labels\<close> are not among these: there the value of every pair
  is validated, whatever its key.
\<close>

theorem unknown_key_ignored:
  assumes "even (length xs)"
  shows "(Value k \<notin> {''apiVersion'', ''kind'', ''metadata'', ''spec''} \<longrightarrow>
      validatePod (Node kd val (xs @ k # x # ys) l) v = validatePod (Node kd val (xs @ ys) l) v)
    \<and> (Value k \<notin> {''name'', ''labels''} \<longrightarrow>
      validateMetadata (Node kd val (xs @ k # x # ys) l) v =
      validateMetadata (Node kd val (xs @ ys) l) v)
    \<and> (Value k \<notin> {''os'', ''containers''} \<longrightarrow>
      validateSpec (Node kd val (xs @ k # x # ys) l) v = validateSpec (Node kd val (xs @ ys) l) v)
    \<and> (Value k \<notin> {''name'', ''image'', ''ports'', ''readinessProbe'', ''livenessProbe'',
          ''resources''} \<longrightarrow>
      validateContainer (Node kd val (xs @ k # x # ys) l) v =
      validateContainer (Node kd val (xs @ ys) l) v)
    \<and> (Value k \<notin> {''containerPort'', ''protocol''} \<longrightarrow>
      validatePort (Node kd val (xs @ k # x # ys) l) v = validatePort (Node kd val (xs @ ys) l) v)
    \<and> (Value k \<notin> {''httpGet''} \<longrightarrow>
      validateProbe (Node kd val (xs @ k # x # ys) l) v = validateProbe (Node kd val (xs @ ys) l) v)
    \<and> (Value k \<notin> {''path'', ''port''} \<longrightarrow>
      validateHTTPGet (Node kd val (xs @ k # x # ys) l) v =
      validateHTTPGet (Node kd val (xs @ ys) l) v)
    \<and> (Value k \<notin> {''cpu'', ''memory''} \<longrightarrow>
      validateResourceRequirements (Node kd val (xs @ k # x # ys) l) v =
      validateResourceRequirements (Node kd val (xs @ ys) l) v)"
proof -
  note ins = object_insert [OF assms, of k _ _ x kd val ys l v]
  have "Value k \<notin> {''cpu'', ''memory''} \<longrightarrow>
      validateResourceRequirements (Node kd val (xs @ k # x # ys) l) v =
      validateResourceRequirements (Node kd val (xs @ ys) l) v"
    using assms by (auto simp: validateResourceRequirements_def intro!: forPairs_insert)
  moreover have "Value k \<notin> {''apiVersion'', ''kind'', ''metadata'', ''spec''} \<longrightarrow>
      validatePod (Node kd val (xs @ k # x # ys) l) v = validatePod (Node kd val (xs @ ys) l) v"
    unfolding validatePod_object by (auto intro!: ins simp: validatePod_switch_def)
  moreover have "Value k \<notin> {''name'', ''labels''} \<longrightarrow>
      validateMetadata (Node kd val (xs @ k # x # ys) l) v =
      validateMetadata (Node kd val (xs @ ys) l) v"
    unfolding validateMetadata_object by (auto intro!: ins simp: validateMetadata_switch_def)
  moreover have "Value k \<notin> {''os'', ''containers''} \<longrightarrow>
      validateSpec (Node kd val (xs @ k # x # ys) l) v = validateSpec (Node kd val (xs @ ys) l) v"
    unfolding validateSpec_object by (auto intro!: ins simp: validateSpec_switch_def)
  moreover have "Value k \<notin> {''name'', ''image'', ''ports'', ''readinessProbe'', ''livenessProbe'',
          ''resources''} \<longrightarrow>
      validateContainer (Node kd val (xs @ k # x # ys) l) v =
      validateContainer (Node kd val (xs @ ys) l) v"
    unfolding validateContainer_object by (auto intro!: ins simp: validateContainer_switch_def)
  moreover have "Value k \<notin> {''containerPort'', ''protocol''} \<longrightarrow>
      validatePort (Node kd val (xs @ k # x # ys) l) v = validatePort (Node kd val (xs @ ys) l) v"
    unfolding validatePort_object by (auto intro!: ins simp: validatePort_switch_def)
  moreover have "Value k \<notin> {''httpGet''} \<longrightarrow>
      validateProbe (Node kd val (xs @ k # x # ys) l) v = validateProbe (Node kd val (xs @ ys) l) v"
    unfolding validateProbe_object by (auto intro!: ins simp: validateProbe_switch_def)
  moreover have "Value k \<notin> {''path'', ''port''} \<longrightarrow>
      validateHTTPGet (Node kd val (xs @ k # x # ys) l) v =
      validateHTTPGet (Node kd val (xs @ ys) l) v"
    unfolding validateHTTPGet_object by (auto intro!: ins simp: validateHTTPGet_switch_def)
  ultimately show ?thesis
    by blast
qed

theorem unknown_key_ignored_witness:
  "validatePod (mapping (podPairs (containerA blockLines) blockLines @
       [scalar ''extra'' 13, scalar ''x'' 13]) 1) (NewValidator ''pod.yaml'' (scalar [] 1)) =
     validatePod (mapping (podPairs (containerA blockLines) blockLines) 1) (NewValidator ''pod.yaml'' (scalar [] 1))
   \<and> validateMetadata (mapping [scalar ''extra'' 1, scalar ''x'' 1] 1) (NewValidator ''pod.yaml'' (scalar [] 1)) =
     validateMetadata (mapping [] 1) (NewValidator ''pod.yaml'' (scalar [] 1))
   \<and> validateSpec (mapping [scalar ''extra'' 1, scalar ''x'' 1] 1) (NewValidator ''pod.yaml'' (scalar [] 1)) =
     validateSpec (mapping [] 1) (NewValidator ''pod.yaml'' (scalar [] 1))
   \<and> validateContainer (mapping [scalar ''extra'' 1, scalar ''x'' 1] 1) (NewValidator ''pod.yaml'' (scalar [] 1)) =
     validateContainer (mapping [] 1) (NewValidator ''pod.yaml'' (scalar [] 1))
   \<and> validatePort (mapping [scalar ''extra'' 1, scalar ''x'' 1] 1) (NewValidator ''pod.yaml'' (scalar [] 1)) =
     validatePort (mapping [] 1) (NewValidator ''pod.yaml'' (scalar [] 1))
   \<and> validateProbe (mapping [scalar ''extra'' 1, scalar ''x'' 1] 1) (NewValidator ''pod.yaml'' (scalar [] 1)) =
     validateProbe (mapping [] 1) (NewValidator ''pod.yaml'' (scalar [] 1))
   \<and> validateHTTPGet (mapping [scalar ''extra'' 1, scalar ''x'' 1] 1) (NewValidator ''pod.yaml'' (scalar [] 1)) =
     validateHTTPGet (mapping [] 1) (NewValidator ''pod.yaml'' (scalar [] 1))
   \<and> validateResourceRequirements (mapping [scalar ''extra'' 1, scalar ''x'' 1] 1) (NewValidator ''pod.yaml'' (scalar [] 1)) =
     validateResourceRequirements (mapping [] 1) (NewValidator ''pod.yaml'' (scalar [] 1))"
  using unknown_key_ignored [of "podPairs (containerA blockLines) blockLines"
      "scalar ''extra'' 13" MappingNode "[]" "scalar ''x'' 13" "[]" 1 "(NewValidator ''pod.yaml'' (scalar [] 1))"]
    unknown_key_ignored [of "[]" "scalar ''extra'' 1" MappingNode "[]" "scalar ''x'' 1" "[]" 1
      "(NewValidator ''pod.yaml'' (scalar [] 1))"]
  by (simp add: mapping_def scalar_def podPairs_def)

text \<open>
  The claim as it stands fails in the mapping of \<open>resources\<close>: scenario A is valid, and
  with the pair \<open>extra: {cpu: 0}\<close> added to its resources \<open>Validate\<close> returns an error.
  It fails in the same way in a mapping of labels.
\<close>

theorem unknown_key_ignored_counterexample:
  "map_sum id fst (Validate (NewValidator ''pod.yaml'' (scenarioA blockLines))) = Inr []
   \<and> map_sum id fst (Validate (NewValidator ''pod.yaml'' (podOf containerExtra blockLines))) =
     Inr [\<lparr>FilePath_e = ''pod.yaml'', Line_e = 14, Message = ''cpu value out of range''\<rparr>]
   \<and> validateLabels (mapping [scalar ''app'' 5, scalar ''web'' 5] 5) (NewValidator ''pod.yaml'' (scalar [] 1)) = Inr (NewValidator ''pod.yaml'' (scalar [] 1))
   \<and> validateLabels (mapping [scalar ''app'' 5, scalar ''web'' 5,
         scalar ''tier'' 6, sequence [scalar ''a'' 6] 6] 5) (NewValidator ''pod.yaml'' (scalar [] 1)) =
     Inr (emit [\<lparr>FilePath_e = ''pod.yaml'', Line_e = 6,
                  Message = ''label value must be string''\<rparr>] (NewValidator ''pod.yaml'' (scalar [] 1)))"
  by (simp add: eval_defs doc_defs)

subsection \<open>C9: a sequence where a mapping is expected\<close>

text \<open>
  C9.  The file \<open>- a\<close> parses to a document whose root is a sequence of one scalar.  It
  has no mapping at all, so every mapping in it has an even number of children; yet
  \<open>validatePod\<close> reads the root's children in pairs without looking at its kind, and the
  read of \<open>Content[1]\<close> panics.
\<close>

theorem Validate_panics_on_sequence_root:
  "evenMappings (Node DocumentNode [] [sequence [scalar ''a'' 1] 1] 1)
   \<and> Validate (NewValidator ''pod.yaml'' (Node DocumentNode [] [sequence [scalar ''a'' 1] 1] 1)) =
     Inl IndexOutOfRange"
  by (simp add: eval_defs)

subsection \<open>C10: resources that are not a mapping\<close>

text \<open>
  C10 (as amended).  \<open>validateResources\<close> does not look at the kind of its node.  For a
  value without children (a scalar, an alias, an empty sequence) it adds nothing, and the
  container of scenario A with such a value as its resources gets no error at all.  In
  every container that has the key \<open>resources\<close>, whatever \<open>validateContainer\<close> adds
  has no error \<open>resources is required\<close>.  A value with children that is not a mapping
  is walked through as if its children were pairs.
\<close>

theorem resources_without_children:
  assumes "Content x = []"
  shows "validateResources x v = Inr v \<and>
    validateContainer (containerOf ''web_app'' ''registry.bigbrother.io/app:1.0'' x L) v = Inr v \<and>
    (Content n = xs @ k # x # ys \<and> even (length xs) \<and> Value k = ''resources'' \<and>
       validateContainer n v = Inr w \<longrightarrow>
     w = emit (added v w) v \<and>
     list_all (\<lambda>e. Message e \<noteq> ''resources is required'') (added v w))"
proof -
  have 1: "validateResources x v = Inr v"
    using assms by (simp add: validateResources_def)
  have 2: "validateContainer
      (containerOf ''web_app'' ''registry.bigbrother.io/app:1.0'' x L) v = Inr v"
    using assms by (simp add: eval_defs containerOf_def)
  have 3: "w = emit (added v w) v \<and>
      list_all (\<lambda>e. Message e \<noteq> ''resources is required'') (added v w)"
    if n: "Content n = xs @ k # x # ys" "even (length xs)" "Value k = ''resources''"
      and w: "validateContainer n v = Inr w"
  proof -
    have "''resources'' \<in> keysOf (Content n)"
      using n by (simp add: keysOf_insert)
    then have "w = emit (added v w) v \<and> list_all (avoids {''resources is required''}) (added v w)"
      using w unfolding validateContainer_object
      by (intro object_present
            [of _ validateContainer_switch "[''name'', ''image'', ''resources'']" n])
        (auto simp: appending_validateContainer_switch requiredMsgs_def avoids_def)
    then show ?thesis
      by (simp add: list_all_iff avoids_def)
  qed
  from 1 2 3 show ?thesis
    by blast
qed

theorem resources_without_children_witness:
  "validateResources (scalar ''none'' 9) (NewValidator ''pod.yaml'' (scalar [] 1)) = Inr (NewValidator ''pod.yaml'' (scalar [] 1))
   \<and> validateContainer
       (containerOf ''web_app'' ''registry.bigbrother.io/app:1.0'' (scalar ''none'' 9) blockLines)
       (NewValidator ''pod.yaml'' (scalar [] 1)) = Inr (NewValidator ''pod.yaml'' (scalar [] 1))
   \<and> list_all (\<lambda>e. Message e \<noteq> ''resources is required'') (added (NewValidator ''pod.yaml'' (scalar [] 1)) (NewValidator ''pod.yaml'' (scalar [] 1)))"
  using resources_without_children [of "scalar ''none'' 9" "(NewValidator ''pod.yaml'' (scalar [] 1))" blockLines
      "containerOf ''web_app'' ''registry.bigbrother.io/app:1.0'' (scalar ''none'' 9) blockLines"
      "[scalar ''name'' 7, scalar ''web_app'' 7, scalar ''image'' 8,
        scalar ''registry.bigbrother.io/app:1.0'' 8]"
      "scalar ''resources'' 9" "[]" "(NewValidator ''pod.yaml'' (scalar [] 1))"]
  by (simp add: scalar_def mapping_def containerOf_def blockLines_def)

text \<open>
  The claim as it stands fails for a sequence with children: with
  \<open>resources: [a, {cpu: 0}]\<close> the container gets a cpu error, and with
  \<open>resources: [a]\<close> the validator panics.
\<close>

theorem resources_without_children_counterexample:
  "validateContainer
     (containerOf ''web_app'' ''registry.bigbrother.io/app:1.0''
        (sequence [scalar ''a'' 9, mapping [scalar ''cpu'' 9, scalar ''0'' 9] 9] 9) blockLines)
     (NewValidator ''pod.yaml'' (scalar [] 1)) =
   Inr (emit [\<lparr>FilePath_e = ''pod.yaml'', Line_e = 9, Message = ''cpu value out of range''\<rparr>]
     (NewValidator ''pod.yaml'' (scalar [] 1)))
   \<and> validateContainer
     (containerOf ''web_app'' ''registry.bigbrother.io/app:1.0''
        (sequence [scalar ''a'' 9] 9) blockLines)
     (NewValidator ''pod.yaml'' (scalar [] 1)) = Inl IndexOutOfRange"
  by (simp add: eval_defs doc_defs)

end
